theory Spec2Isabelle
  imports Main "HOL-Library.Sublist"
begin

section \<open>The GitHub repository reader\<close>

text \<open>
  A shallow embedding of \<^verbatim>\<open>GithubRepositoryReader\<close>
  (\<^verbatim>\<open>gpt_index/readers/github_readers/github_repository_reader.py\<close>).

  The reader's collaborators are not part of the file and are taken as parameters:
  \<^item> the API client (\<^verbatim>\<open>GithubClient\<close>), a record of response functions;
  \<^item> the module-level helpers \<^verbatim>\<open>get_file_extension\<close> and \<^verbatim>\<open>DEFAULT_FILE_EXTRACTOR\<close>
    and the interpreter's \<^verbatim>\<open>base64.b64decode\<close> and \<^verbatim>\<open>bytes.decode("utf-8")\<close>, fields of
    the record \<open>environment\<close>.
  A collaborator that raises returns \<open>Inl\<close>. The client answers a request by its
  arguments alone (the same identity gives the same object at every call), and every
  call the reader makes is appended to a log that is passed through the functions, so
  that "before any call to the client" is a statement about the log.

  Not modelled: the output of \<^verbatim>\<open>print_if_verbose\<close> and \<^verbatim>\<open>logger.error\<close>, which no
  result depends on; failures of the temporary file and directory; an interpreter run
  with assertions switched off. \<^verbatim>\<open>os.path\<close> is the POSIX one.
\<close>

subsection \<open>Data\<close>

type_synonym bytes = "char list"

text \<open>An exception raised by a collaborator, kept as its printed form.\<close>

type_synonym exc = string

text \<open>
  What can leave the reader: its own \<^verbatim>\<open>ValueError\<close>s, the failed assertion on a blob's
  encoding, and the exceptions of collaborators that no handler of the reader catches,
  tagged by the call they come from.
\<close>

datatype error =
    ValueError string
  | AssertionError string
  | ClientError exc
  | DecodeError exc
  | ParserInitError exc

text \<open>
  \<^verbatim>\<open>base64.b64decode\<close> raises \<^verbatim>\<open>binascii.Error\<close>, the one class the reader's handler names,
  or something else.
\<close>

datatype b64_exception = BinasciiError exc | OtherB64Exception exc

text \<open>Both kinds of response carry the object's hash.\<close>

record git_object =
  sha :: string

text \<open>\<^verbatim>\<open>GitTreeResponseModel.GitTreeObject\<close>: one entry of a tree.\<close>

record GitTreeObject = git_object +
  path :: string
  mode :: string
  type :: string

text \<open>\<^verbatim>\<open>GitBlobResponseModel\<close>: a fetched blob.\<close>

record GitBlobResponseModel = git_object +
  encoding :: string
  content :: string

text \<open>
  \<^verbatim>\<open>Document\<close>, as the arguments its constructor is given. \<open>doc_text\<close> is the argument
  \<^verbatim>\<open>text\<close> (a reserved word here); \<open>doc_id\<close> is \<open>None\<close> when the call passes none;
  \<open>extra_info\<close> is the dictionary as its items, in insertion order.
\<close>

record Document =
  doc_text :: string
  doc_id :: "string option"
  extra_info :: "(string \<times> string) list"

text \<open>
  The client. \<open>get_commit\<close> stands for \<^verbatim>\<open>get_commit(...).tree.sha\<close>, \<open>get_branch\<close> for
  \<^verbatim>\<open>get_branch(...).commit.commit.tree.sha\<close> and \<open>get_tree\<close> for \<^verbatim>\<open>get_tree(...).tree\<close>: the
  only parts of the responses the reader reads. The arguments are owner, repository
  and identity.
\<close>

record GithubClient =
  get_commit :: "string \<Rightarrow> string \<Rightarrow> string \<Rightarrow> exc + string"
  get_branch :: "string \<Rightarrow> string \<Rightarrow> string \<Rightarrow> exc + string"
  get_tree :: "string \<Rightarrow> string \<Rightarrow> string \<Rightarrow> exc + GitTreeObject list"
  get_blob :: "string \<Rightarrow> string \<Rightarrow> string \<Rightarrow> exc + GitBlobResponseModel"

datatype api_call =
    Get_commit string string string
  | Get_branch string string string
  | Get_tree string string string
  | Get_blob string string string

text \<open>
  A parser of the registry. \<open>init_parser\<close> is \<open>Some e\<close> when \<^verbatim>\<open>init_parser()\<close> raises
  \<open>e\<close>; \<open>parse_file\<close> is given the bytes written to the temporary file.
\<close>

record BaseParser =
  init_parser :: "exc option"
  parse_file :: "bytes \<Rightarrow> exc + string list"

record environment =
  get_file_extension :: "string \<Rightarrow> string"
  DEFAULT_FILE_EXTRACTOR :: "string \<Rightarrow> BaseParser option"
  b64decode :: "string \<Rightarrow> b64_exception + bytes"
  utf8_decode :: "bytes \<Rightarrow> string option"

text \<open>The fields \<^verbatim>\<open>__init__\<close> sets.\<close>

record reader =
  owner :: string
  repo :: string
  use_parser :: bool
  verbose :: bool
  client :: GithubClient

subsection \<open>Strings and paths\<close>

text \<open>\<^verbatim>\<open>sep.join(xs)\<close>.\<close>

fun str_join :: "string \<Rightarrow> string list \<Rightarrow> string" where
  "str_join sep [] = []"
| "str_join sep [x] = x"
| "str_join sep (x # y # ys) = x @ sep @ str_join sep (y # ys)"

text \<open>
  \<^verbatim>\<open>s.rfind(c)\<close>: the last index of \<open>c\<close>, or \<open>-1\<close>. \<open>rfind_from\<close> reads the rest of the
  string from index \<open>i\<close> on, with the last index found so far.
\<close>

primrec rfind_from :: "char \<Rightarrow> string \<Rightarrow> int \<Rightarrow> int \<Rightarrow> int" where
  "rfind_from c [] i found = found"
| "rfind_from c (x # xs) i found = rfind_from c xs (i + 1) (if x = c then i else found)"

definition rfind :: "char \<Rightarrow> string \<Rightarrow> int" where
  "rfind c s = rfind_from c s 0 (- 1)"

text \<open>
  \<^verbatim>\<open>os.path.join(a, b)\<close> of \<^verbatim>\<open>posixpath\<close>: \<open>b\<close> alone when it is absolute or \<open>a\<close> is
  empty, else \<open>a\<close>, a separator unless \<open>a\<close> ends with one, and \<open>b\<close>.
\<close>

definition os_path_join :: "string \<Rightarrow> string \<Rightarrow> string" where
  "os_path_join a b =
     (if (b \<noteq> [] \<and> hd b = CHR ''/'') \<or> a = [] then b
      else if last a = CHR ''/'' then a @ b
      else a @ ''/'' @ b)"

text \<open>\<^verbatim>\<open>os.path.basename(p)\<close>: what follows the last separator.\<close>

definition os_path_basename :: "string \<Rightarrow> string" where
  "os_path_basename p = drop (nat (rfind (CHR ''/'') p + 1)) p"

text \<open>
  \<^verbatim>\<open>os.path.splitext(p)\<close>: split at the last dot of the last component, unless that
  component has only dots before it.
\<close>

definition os_path_splitext :: "string \<Rightarrow> string \<times> string" where
  "os_path_splitext p =
     (let sepIndex = rfind (CHR ''/'') p;
          dotIndex = rfind (CHR ''.'') p
      in if dotIndex > sepIndex \<and>
            list_ex (\<lambda>c. c \<noteq> CHR ''.'')
              (take (nat (dotIndex - (sepIndex + 1))) (drop (nat (sepIndex + 1)) p))
         then (take (nat dotIndex) p, drop (nat dotIndex) p)
         else (p, []))"

subsection \<open>Construction\<close>

text \<open>
  \<^verbatim>\<open>__init__\<close>. \<open>environ\<close> is the process environment read by \<^verbatim>\<open>os.getenv\<close>, \<open>new_client\<close>
  the constructor \<^verbatim>\<open>GithubClient(token)\<close>, which stores the token.
\<close>

definition init ::
  "(string \<Rightarrow> GithubClient) \<Rightarrow> (string \<rightharpoonup> string) \<Rightarrow> string \<Rightarrow> string \<Rightarrow> bool \<Rightarrow> bool \<Rightarrow>
   string option \<Rightarrow> api_call list \<Rightarrow> (error + reader) \<times> api_call list" where
  "init new_client environ owner' repo' use_parser' verbose' github_token log =
     (case github_token of
        None \<Rightarrow>
          (case environ ''GITHUB_TOKEN'' of
             None \<Rightarrow>
               (Inl (ValueError
                  (''Please provide a Github token. '' @
                   ''You can do so by passing it as an argument or'' @
                   ''by setting the GITHUB_TOKEN environment variable.'')), log)
           | Some github_token' \<Rightarrow>
               (Inr \<lparr>owner = owner', repo = repo', use_parser = use_parser',
                     verbose = verbose', client = new_client github_token'\<rparr>, log))
      | Some github_token' \<Rightarrow>
          (Inr \<lparr>owner = owner', repo = repo', use_parser = use_parser',
                verbose = verbose', client = new_client github_token'\<rparr>, log))"

subsection \<open>The tree walk\<close>

text \<open>
  \<^verbatim>\<open>_recurse_tree\<close>, with the loop over the entries of one tree as \<open>recurse_entries\<close>
  (its accumulator is \<^verbatim>\<open>blobs_and_full_paths\<close>). The first argument bounds the depth of
  the recursion: \<open>None\<close> is a walk that did not return within it (the interpreter
  bounds the depth too, and raises \<^verbatim>\<open>RecursionError\<close> there). An entry whose type is
  neither \<^verbatim>\<open>tree\<close> nor \<^verbatim>\<open>blob\<close>, such as a submodule, is passed over.
\<close>

fun recurse_tree ::
    "nat \<Rightarrow> reader \<Rightarrow> string \<Rightarrow> string \<Rightarrow> nat \<Rightarrow> api_call list \<Rightarrow>
     ((error + (GitTreeObject \<times> string) list) \<times> api_call list) option"
  and recurse_entries ::
    "nat \<Rightarrow> reader \<Rightarrow> string \<Rightarrow> nat \<Rightarrow> GitTreeObject list \<Rightarrow> (GitTreeObject \<times> string) list \<Rightarrow>
     api_call list \<Rightarrow> ((error + (GitTreeObject \<times> string) list) \<times> api_call list) option"
  where
  "recurse_tree 0 r tree_sha current_path current_depth log = None"
| "recurse_tree (Suc fuel) r tree_sha current_path current_depth log =
     (let log' = log @ [Get_tree (owner r) (repo r) tree_sha] in
      case get_tree (client r) (owner r) (repo r) tree_sha of
        Inl e \<Rightarrow> Some (Inl (ClientError e), log')
      | Inr tree_data \<Rightarrow> recurse_entries fuel r current_path current_depth tree_data [] log')"
| "recurse_entries fuel r current_path current_depth [] blobs_and_full_paths log =
     Some (Inr blobs_and_full_paths, log)"
| "recurse_entries fuel r current_path current_depth (tree # rest) blobs_and_full_paths log =
     (let file_path = os_path_join current_path (path tree) in
      if type tree = ''tree'' then
        (case recurse_tree fuel r (sha tree) file_path (current_depth + 1) log of
           None \<Rightarrow> None
         | Some (Inl e, log') \<Rightarrow> Some (Inl e, log')
         | Some (Inr found, log') \<Rightarrow>
             recurse_entries fuel r current_path current_depth rest
               (blobs_and_full_paths @ found) log')
      else if type tree = ''blob'' then
        recurse_entries fuel r current_path current_depth rest
          (blobs_and_full_paths @ [(tree, file_path)]) log
      else recurse_entries fuel r current_path current_depth rest blobs_and_full_paths log)"

subsection \<open>Documents\<close>

text \<open>
  \<^verbatim>\<open>_parse_supported_file\<close>. \<open>Inr None\<close> is the \<^verbatim>\<open>return None\<close> of the function, both
  for an extension without a parser and for a parser that raised; \<open>Inl\<close> is an
  exception of \<^verbatim>\<open>init_parser\<close>, which is called outside the \<^verbatim>\<open>try\<close>.
\<close>

definition parse_supported_file ::
  "environment \<Rightarrow> reader \<Rightarrow> string \<Rightarrow> bytes \<Rightarrow> string \<Rightarrow> string \<Rightarrow> error + Document option" where
  "parse_supported_file env r file_path file_content tree_sha tree_path =
     (let file_extension = get_file_extension env file_path in
      case DEFAULT_FILE_EXTRACTOR env file_extension of
        Some parser \<Rightarrow>
          (case init_parser parser of
             Some e \<Rightarrow> Inl (ParserInitError e)
           | None \<Rightarrow>
               (case parse_file parser file_content of
                  Inl e \<Rightarrow> Inr None
                | Inr parsed_file \<Rightarrow>
                    Inr (Some \<lparr>doc_text = str_join [CHR 0x0A, CHR 0x0A] parsed_file,
                               doc_id = Some tree_sha,
                               extra_info = [(''file_path'', file_path),
                                             (''file_name'', tree_path)]\<rparr>)))
      | None \<Rightarrow> Inr None)"

text \<open>
  The body of the loop of \<^verbatim>\<open>_generate_documents\<close> from the response of \<^verbatim>\<open>get_blob\<close> on:
  \<open>Inr (Some d)\<close> appends \<open>d\<close>, \<open>Inr None\<close> is a \<^verbatim>\<open>continue\<close> that appends nothing,
  \<open>Inl\<close> leaves the loop and the function.
\<close>

fun document_for_blob ::
  "environment \<Rightarrow> reader \<Rightarrow> GitTreeObject \<times> string \<Rightarrow> error + Document option" where
  "document_for_blob env r (blob_object, full_path) =
     (case get_blob (client r) (owner r) (repo r) (sha blob_object) of
        Inl e \<Rightarrow> Inl (ClientError e)
      | Inr blob_data \<Rightarrow>
          (if encoding blob_data \<noteq> ''base64'' then
             Inl (AssertionError (''blob encoding '' @ encoding blob_data @ '' not supported''))
           else
             (case b64decode env (content blob_data) of
                Inl (BinasciiError e) \<Rightarrow> Inr None
              | Inl (OtherB64Exception e) \<Rightarrow> Inl (DecodeError e)
              | Inr decoded_bytes \<Rightarrow>
                  (case (if use_parser r
                         then parse_supported_file env r full_path decoded_bytes
                                (sha blob_data) full_path
                         else Inr None) of
                     Inl e \<Rightarrow> Inl e
                   | Inr (Some document) \<Rightarrow> Inr (Some document)
                   | Inr None \<Rightarrow>
                       (case utf8_decode env decoded_bytes of
                          None \<Rightarrow> Inr None
                        | Some decoded_content_as_str \<Rightarrow>
                            Inr (Some \<lparr>doc_text = decoded_content_as_str,
                                       doc_id = None,
                                       extra_info =
                                         [(''full_path'', full_path),
                                          (''file_name'', os_path_basename full_path),
                                          (''file_extension'',
                                             snd (os_path_splitext full_path))]\<rparr>))))))"

text \<open>
  The loop of \<^verbatim>\<open>_generate_documents\<close>: each turn calls \<^verbatim>\<open>get_blob\<close> first. The third
  argument is \<^verbatim>\<open>documents\<close>.
\<close>

fun generate_documents_loop ::
  "environment \<Rightarrow> reader \<Rightarrow> (GitTreeObject \<times> string) list \<Rightarrow> Document list \<Rightarrow> api_call list \<Rightarrow>
   (error + Document list) \<times> api_call list" where
  "generate_documents_loop env r [] documents log = (Inr documents, log)"
| "generate_documents_loop env r (bp # rest) documents log =
     (let log' = log @ [Get_blob (owner r) (repo r) (sha (fst bp))] in
      case document_for_blob env r bp of
        Inl e \<Rightarrow> (Inl e, log')
      | Inr None \<Rightarrow> generate_documents_loop env r rest documents log'
      | Inr (Some document) \<Rightarrow> generate_documents_loop env r rest (documents @ [document]) log')"

definition generate_documents ::
  "environment \<Rightarrow> reader \<Rightarrow> (GitTreeObject \<times> string) list \<Rightarrow> api_call list \<Rightarrow>
   (error + Document list) \<times> api_call list" where
  "generate_documents env r blobs_and_paths log =
     generate_documents_loop env r blobs_and_paths [] log"

subsection \<open>Loading\<close>

definition load_data_from_commit ::
  "nat \<Rightarrow> environment \<Rightarrow> reader \<Rightarrow> string \<Rightarrow> api_call list \<Rightarrow>
   ((error + Document list) \<times> api_call list) option" where
  "load_data_from_commit fuel env r commit_sha log =
     (let log' = log @ [Get_commit (owner r) (repo r) commit_sha] in
      case get_commit (client r) (owner r) (repo r) commit_sha of
        Inl e \<Rightarrow> Some (Inl (ClientError e), log')
      | Inr tree_sha \<Rightarrow>
          (case recurse_tree fuel r tree_sha [] 0 log' of
             None \<Rightarrow> None
           | Some (Inl e, log'') \<Rightarrow> Some (Inl e, log'')
           | Some (Inr blobs_and_paths, log'') \<Rightarrow>
               Some (generate_documents env r blobs_and_paths log'')))"

definition load_data_from_branch ::
  "nat \<Rightarrow> environment \<Rightarrow> reader \<Rightarrow> string \<Rightarrow> api_call list \<Rightarrow>
   ((error + Document list) \<times> api_call list) option" where
  "load_data_from_branch fuel env r branch log =
     (let log' = log @ [Get_branch (owner r) (repo r) branch] in
      case get_branch (client r) (owner r) (repo r) branch of
        Inl e \<Rightarrow> Some (Inl (ClientError e), log')
      | Inr tree_sha \<Rightarrow>
          (case recurse_tree fuel r tree_sha [] 0 log' of
             None \<Rightarrow> None
           | Some (Inl e, log'') \<Rightarrow> Some (Inl e, log'')
           | Some (Inr blobs_and_paths, log'') \<Rightarrow>
               Some (generate_documents env r blobs_and_paths log'')))"

definition load_data ::
  "nat \<Rightarrow> environment \<Rightarrow> reader \<Rightarrow> string option \<Rightarrow> string option \<Rightarrow> api_call list \<Rightarrow>
   ((error + Document list) \<times> api_call list) option" where
  "load_data fuel env r commit_sha branch log =
     (if commit_sha \<noteq> None \<and> branch \<noteq> None then
        Some (Inl (ValueError ''You can only specify one of commit or branch.''), log)
      else if commit_sha = None \<and> branch = None then
        Some (Inl (ValueError ''You must specify one of commit or branch.''), log)
      else if commit_sha \<noteq> None then load_data_from_commit fuel env r (the commit_sha) log
      else if branch \<noteq> None then load_data_from_branch fuel env r (the branch) log
      else Some (Inl (ValueError ''You must specify one of commit or branch.''), log))"

section \<open>Repositories as trees\<close>

text \<open>
  The object graph behind a root tree, unfolded: every entry with the entries of the
  tree it names (none for an entry that is not a tree). A tree object that occurs
  under two names is two nodes.
\<close>

datatype git_node = GitNode (entry: GitTreeObject) (children: "git_node list")

text \<open>The client answers \<^verbatim>\<open>get_tree\<close> for the trees of the node with their entries.\<close>

fun served :: "GithubClient \<Rightarrow> string \<Rightarrow> string \<Rightarrow> git_node \<Rightarrow> bool" where
  "served c ow rp (GitNode e ns) =
     (type e = ''tree'' \<longrightarrow>
        get_tree c ow rp (sha e) = Inr (map entry ns) \<and> list_all (served c ow rp) ns)"

definition serves :: "GithubClient \<Rightarrow> string \<Rightarrow> string \<Rightarrow> string \<Rightarrow> git_node list \<Rightarrow> bool" where
  "serves c ow rp root nodes \<longleftrightarrow>
     get_tree c ow rp root = Inr (map entry nodes) \<and> list_all (served c ow rp) nodes"

definition max_list :: "nat list \<Rightarrow> nat" where
  "max_list xs = foldr max xs 0"

text \<open>The number of trees nested in one another, the node's own included.\<close>

fun tree_depth :: "git_node \<Rightarrow> nat" where
  "tree_depth (GitNode e ns) =
     (if type e = ''tree'' then Suc (max_list (map tree_depth ns)) else 0)"

text \<open>The blob entries at and below a node.\<close>

fun blob_count :: "git_node \<Rightarrow> nat" where
  "blob_count (GitNode e ns) =
     (if type e = ''tree'' then sum_list (map blob_count ns)
      else if type e = ''blob'' then 1 else 0)"

text \<open>
  For every blob entry at and below a node, in depth-first order, the names of the
  trees that enclose it (after \<open>segs\<close>) and its own.
\<close>

fun blob_segments :: "string list \<Rightarrow> git_node \<Rightarrow> string list list" where
  "blob_segments segs (GitNode e ns) =
     (if type e = ''tree'' then concat (map (blob_segments (segs @ [path e])) ns)
      else if type e = ''blob'' then [segs @ [path e]] else [])"

text \<open>The path of a list of segments: joined one after the other, from the root.\<close>

definition joined :: "string list \<Rightarrow> string" where
  "joined segs = foldl os_path_join [] segs"

text \<open>
  The depth-first listing of a node under the path \<open>base\<close>: a blob entry is listed
  with its path, a tree entry is replaced by the listing of its entries, in their
  order, and any other entry is left out.
\<close>

fun blobs_under :: "string \<Rightarrow> git_node \<Rightarrow> (GitTreeObject \<times> string) list" where
  "blobs_under base (GitNode e ns) =
     (if type e = ''tree'' then concat (map (blobs_under (os_path_join base (path e))) ns)
      else if type e = ''blob'' then [(e, os_path_join base (path e))] else [])"

text \<open>
  Names as Git has them: not empty, without a separator, and no two entries of one
  tree with the same name.
\<close>

fun well_named :: "git_node \<Rightarrow> bool" where
  "well_named (GitNode e ns) =
     (path e \<noteq> [] \<and> CHR ''/'' \<notin> set (path e) \<and>
      (type e = ''tree'' \<longrightarrow> distinct (map (path \<circ> entry) ns) \<and> list_all well_named ns))"

text \<open>The start of every path below the directory \<open>base\<close>.\<close>

definition dir_prefix :: "string \<Rightarrow> string" where
  "dir_prefix base =
     (if base = [] then [] else if last base = CHR ''/'' then base else base @ ''/'')"

text \<open>What the loop of \<^verbatim>\<open>_generate_documents\<close> appends for one pair: one document or none.\<close>

definition emitted :: "environment \<Rightarrow> reader \<Rightarrow> GitTreeObject \<times> string \<Rightarrow> Document list" where
  "emitted env r bp = (case document_for_blob env r bp of Inr (Some d) \<Rightarrow> [d] | _ \<Rightarrow> [])"

section \<open>An example repository\<close>

text \<open>
  The repository of the specification's scenarios: \<^verbatim>\<open>a.txt\<close> holding \<^verbatim>\<open>hello\<close>, \<^verbatim>\<open>b/c.bin\<close>
  holding the bytes FF FE, \<^verbatim>\<open>d.md\<close> holding \<^verbatim>\<open># Title\<close>, and a submodule entry. Five more
  blobs are known to the client: one whose content is not base64, one whose encoding
  is not base64, one more holding \<^verbatim>\<open>hello\<close>, one whose content is the single character
  E9 (not ASCII), and one whose content is the base64 of \<^verbatim>\<open>hello\<close> with a \<^verbatim>\<open>!\<close> put in.
\<close>

definition a_txt :: GitTreeObject where
  "a_txt = \<lparr>sha = ''b1'', path = ''a.txt'', mode = ''100644'', type = ''blob''\<rparr>"

definition b_dir :: GitTreeObject where
  "b_dir = \<lparr>sha = ''t1'', path = ''b'', mode = ''040000'', type = ''tree''\<rparr>"

definition c_bin :: GitTreeObject where
  "c_bin = \<lparr>sha = ''b2'', path = ''c.bin'', mode = ''100644'', type = ''blob''\<rparr>"

definition d_md :: GitTreeObject where
  "d_md = \<lparr>sha = ''b3'', path = ''d.md'', mode = ''100644'', type = ''blob''\<rparr>"

definition vendor :: GitTreeObject where
  "vendor = \<lparr>sha = ''s1'', path = ''vendor'', mode = ''160000'', type = ''commit''\<rparr>"

definition e_dat :: GitTreeObject where
  "e_dat = \<lparr>sha = ''b4'', path = ''e.dat'', mode = ''100644'', type = ''blob''\<rparr>"

definition f_raw :: GitTreeObject where
  "f_raw = \<lparr>sha = ''b5'', path = ''f.raw'', mode = ''100644'', type = ''blob''\<rparr>"

definition g_cfg :: GitTreeObject where
  "g_cfg = \<lparr>sha = ''b6'', path = ''setup.cfg'', mode = ''100644'', type = ''blob''\<rparr>"

definition h_dat :: GitTreeObject where
  "h_dat = \<lparr>sha = ''b7'', path = ''h.dat'', mode = ''100644'', type = ''blob''\<rparr>"

definition i_dat :: GitTreeObject where
  "i_dat = \<lparr>sha = ''b8'', path = ''i.dat'', mode = ''100644'', type = ''blob''\<rparr>"

definition demo_nodes :: "git_node list" where
  "demo_nodes =
     [GitNode a_txt [], GitNode b_dir [GitNode c_bin []], GitNode d_md [], GitNode vendor []]"

definition demo_client :: GithubClient where
  "demo_client =
     \<lparr>get_commit = (\<lambda>ow rp s. if s = ''c0'' then Inr ''t0'' else Inl ''404 Not Found''),
      get_branch = (\<lambda>ow rp s. if s = ''main'' then Inr ''t0'' else Inl ''404 Not Found''),
      get_tree = (\<lambda>ow rp s.
        if s = ''t0'' then Inr [a_txt, b_dir, d_md, vendor]
        else if s = ''t1'' then Inr [c_bin]
        else Inl ''404 Not Found''),
      get_blob = (\<lambda>ow rp s.
        if s = ''b1'' then Inr \<lparr>sha = ''b1'', encoding = ''base64'', content = ''aGVsbG8=''\<rparr>
        else if s = ''b2'' then Inr \<lparr>sha = ''b2'', encoding = ''base64'', content = ''//4=''\<rparr>
        else if s = ''b3'' then
          Inr \<lparr>sha = ''b3'', encoding = ''base64'', content = ''IyBUaXRsZQ==''\<rparr>
        else if s = ''b4'' then Inr \<lparr>sha = ''b4'', encoding = ''base64'', content = ''a''\<rparr>
        else if s = ''b5'' then Inr \<lparr>sha = ''b5'', encoding = ''utf-8'', content = ''hello''\<rparr>
        else if s = ''b6'' then Inr \<lparr>sha = ''b6'', encoding = ''base64'', content = ''aGVsbG8=''\<rparr>
        else if s = ''b7'' then Inr \<lparr>sha = ''b7'', encoding = ''base64'', content = [CHR 0xE9]\<rparr>
        else if s = ''b8'' then Inr \<lparr>sha = ''b8'', encoding = ''base64'', content = ''aGVs!bG8=''\<rparr>
        else Inl ''404 Not Found'')\<rparr>"

text \<open>
  Stand-ins for the interpreter's decoders, right on the contents above. As
  \<^verbatim>\<open>base64.b64decode\<close> does, \<open>demo_b64decode\<close> raises a \<^verbatim>\<open>ValueError\<close>, which is not a
  \<^verbatim>\<open>binascii.Error\<close>, for a string with a character outside ASCII, drops the \<^verbatim>\<open>!\<close> that is
  not of the alphabet, and raises \<^verbatim>\<open>binascii.Error\<close> for the single character \<^verbatim>\<open>a\<close>; it
  knows the base64 of \<^verbatim>\<open>hello\<close>, of \<^verbatim>\<open># Title\<close> and of FF FE. \<open>demo_utf8_decode\<close> decodes
  text in ASCII.
\<close>

definition demo_b64decode :: "string \<Rightarrow> b64_exception + bytes" where
  "demo_b64decode s =
     (if list_ex (\<lambda>c. (of_char c :: nat) \<ge> 128) s then
        Inl (OtherB64Exception ''string argument should contain only ASCII characters'')
      else if s = ''aGVsbG8='' \<or> s = ''aGVs!bG8='' then Inr ''hello''
      else if s = ''IyBUaXRsZQ=='' then Inr ''# Title''
      else if s = ''//4='' then Inr [CHR 0xFF, CHR 0xFE]
      else Inl (BinasciiError ''Incorrect padding''))"

definition demo_utf8_decode :: "bytes \<Rightarrow> string option" where
  "demo_utf8_decode bs = (if list_all (\<lambda>b. (of_char b :: nat) < 128) bs then Some bs else None)"

text \<open>A parser for \<^verbatim>\<open>.md\<close> that returns two segments, and one for \<^verbatim>\<open>.txt\<close> that raises.\<close>

definition md_parser :: BaseParser where
  "md_parser = \<lparr>init_parser = None, parse_file = (\<lambda>bs. Inr [''Title'', ''Body''])\<rparr>"

definition failing_parser :: BaseParser where
  "failing_parser = \<lparr>init_parser = None, parse_file = (\<lambda>bs. Inl ''cannot parse'')\<rparr>"

definition demo_env :: environment where
  "demo_env =
     \<lparr>get_file_extension = (\<lambda>p. snd (os_path_splitext p)),
      DEFAULT_FILE_EXTRACTOR = (\<lambda>ext.
        if ext = ''.md'' then Some md_parser
        else if ext = ''.txt'' then Some failing_parser
        else None),
      b64decode = demo_b64decode,
      utf8_decode = demo_utf8_decode\<rparr>"

definition demo_reader :: reader where
  "demo_reader =
     \<lparr>owner = ''jerryjliu'', repo = ''gpt_index'', use_parser = True, verbose = False,
      client = demo_client\<rparr>"

text \<open>The same reader without the parsers.\<close>

definition plain_reader :: reader where
  "plain_reader = demo_reader\<lparr>use_parser := False\<rparr>"

text \<open>The documents of the example.\<close>

definition hello_document :: Document where
  "hello_document =
     \<lparr>doc_text = ''hello'', doc_id = None,
      extra_info = [(''full_path'', ''a.txt''), (''file_name'', ''a.txt''),
                    (''file_extension'', ''.txt'')]\<rparr>"

definition title_document :: Document where
  "title_document =
     \<lparr>doc_text = ''# Title'', doc_id = None,
      extra_info = [(''full_path'', ''d.md''), (''file_name'', ''d.md''),
                    (''file_extension'', ''.md'')]\<rparr>"

definition parsed_document :: Document where
  "parsed_document =
     \<lparr>doc_text = ''Title'' @ [CHR 0x0A, CHR 0x0A] @ ''Body'', doc_id = Some ''b3'',
      extra_info = [(''file_path'', ''d.md''), (''file_name'', ''d.md'')]\<rparr>"

definition cfg_document :: Document where
  "cfg_document =
     \<lparr>doc_text = ''hello'', doc_id = None,
      extra_info = [(''full_path'', ''conf/setup.cfg''), (''file_name'', ''setup.cfg''),
                    (''file_extension'', ''.cfg'')]\<rparr>"

definition demo_walk :: "(GitTreeObject \<times> string) list" where
  "demo_walk = [(a_txt, ''a.txt''), (c_bin, ''b/c.bin''), (d_md, ''d.md'')]"

section \<open>The walk lists the tree depth first\<close>

lemma recurse_entries_listing:
  assumes "\<And>n base d log. n \<in> set ns \<Longrightarrow> type (entry n) = ''tree'' \<Longrightarrow>
     map_option fst (recurse_tree fuel r (sha (entry n)) base d log) =
       Some (Inr (concat (map (blobs_under base) (children n))))"
  shows "map_option fst (recurse_entries fuel r cp cd (map entry ns) acc log) =
       Some (Inr (acc @ concat (map (blobs_under cp) ns)))"
  using assms
proof (induction ns arbitrary: acc log)
  case Nil
  then show ?case by simp
next
  case (Cons n ns)
  obtain e ch where n: "n = GitNode e ch" by (cases n)
  show ?case
  proof (cases "type e = ''tree''")
    case True
    have "map_option fst (recurse_tree fuel r (sha e) (os_path_join cp (path e)) (cd + 1) log) =
       Some (Inr (concat (map (blobs_under (os_path_join cp (path e))) ch)))"
      using Cons.prems [of n] n True by simp
    then obtain log' where
      "recurse_tree fuel r (sha e) (os_path_join cp (path e)) (cd + 1) log =
         Some (Inr (concat (map (blobs_under (os_path_join cp (path e))) ch)), log')"
      by (cases "recurse_tree fuel r (sha e) (os_path_join cp (path e)) (cd + 1) log") auto
    moreover have "map_option fst (recurse_entries fuel r cp cd (map entry ns)
        (acc @ concat (map (blobs_under (os_path_join cp (path e))) ch)) log') =
      Some (Inr ((acc @ concat (map (blobs_under (os_path_join cp (path e))) ch)) @
        concat (map (blobs_under cp) ns)))"
      by (rule Cons.IH) (simp add: Cons.prems)
    ultimately show ?thesis using True n by simp
  next
    case False
    have IH: "\<And>acc'. map_option fst (recurse_entries fuel r cp cd (map entry ns) acc' log) =
      Some (Inr (acc' @ concat (map (blobs_under cp) ns)))"
      by (rule Cons.IH) (simp add: Cons.prems)
    show ?thesis
      using IH [of acc] IH [of "acc @ [(e, os_path_join cp (path e))]"] False n by simp
  qed
qed

lemma max_list_ge: "x \<in> set xs \<Longrightarrow> x \<le> max_list xs"
  by (induction xs) (auto simp: max_list_def)

lemma recurse_tree_listing:
  "served (client r) (owner r) (repo r) n \<Longrightarrow> tree_depth n \<le> fuel \<Longrightarrow> type (entry n) = ''tree'' \<Longrightarrow>
   map_option fst (recurse_tree fuel r (sha (entry n)) base d log) =
     Some (Inr (concat (map (blobs_under base) (children n))))"
proof (induction n arbitrary: fuel base d log)
  case (GitNode e ns)
  from GitNode.prems obtain fuel' where fuel: "fuel = Suc fuel'"
    by (cases fuel) auto
  have tree: "get_tree (client r) (owner r) (repo r) (sha e) = Inr (map entry ns)"
    using GitNode.prems by simp
  have "map_option fst (recurse_entries fuel' r base d (map entry ns) []
          (log @ [Get_tree (owner r) (repo r) (sha e)])) =
        Some (Inr ([] @ concat (map (blobs_under base) ns)))"
  proof (rule recurse_entries_listing)
    fix n base' d' log'
    assume n: "n \<in> set ns" and t: "type (entry n) = ''tree''"
    have "served (client r) (owner r) (repo r) n"
      using GitNode.prems n by (simp add: list_all_iff)
    moreover have "tree_depth n \<le> fuel'"
      using GitNode.prems fuel n max_list_ge [of "tree_depth n" "map tree_depth ns"] by auto
    ultimately show "map_option fst (recurse_tree fuel' r (sha (entry n)) base' d' log') =
       Some (Inr (concat (map (blobs_under base') (children n))))"
      using GitNode.IH n t by blast
  qed
  then show ?case using fuel tree by simp
qed

lemma walk_listing:
  assumes "serves (client r) (owner r) (repo r) root nodes"
    and "max_list (map tree_depth nodes) < fuel"
  shows "map_option fst (recurse_tree fuel r root base d log) =
     Some (Inr (concat (map (blobs_under base) nodes)))"
proof -
  from assms obtain fuel' where fuel: "fuel = Suc fuel'"
    by (cases fuel) auto
  have "map_option fst (recurse_entries fuel' r base d (map entry nodes) []
          (log @ [Get_tree (owner r) (repo r) root])) =
        Some (Inr ([] @ concat (map (blobs_under base) nodes)))"
  proof (rule recurse_entries_listing)
    fix n base' d' log'
    assume n: "n \<in> set nodes" and t: "type (entry n) = ''tree''"
    have "served (client r) (owner r) (repo r) n"
      using assms n by (simp add: serves_def list_all_iff)
    moreover have "tree_depth n \<le> fuel'"
      using assms fuel n max_list_ge [of "tree_depth n" "map tree_depth nodes"] by auto
    ultimately show "map_option fst (recurse_tree fuel' r (sha (entry n)) base' d' log') =
       Some (Inr (concat (map (blobs_under base') (children n))))"
      using t by (rule recurse_tree_listing)
  qed
  then show ?thesis using fuel assms by (simp add: serves_def)
qed

section \<open>Counting blobs and joining segments\<close>

lemma length_blobs_under: "length (blobs_under base n) = blob_count n"
proof (induction n arbitrary: base)
  case (GitNode e ns)
  show ?case by (simp add: length_concat comp_def GitNode.IH cong: map_cong)
qed

lemma length_listing:
  "length (concat (map (blobs_under base) nodes)) = sum_list (map blob_count nodes)"
  by (simp add: length_concat comp_def length_blobs_under)

lemma paths_blobs_under:
  "map snd (blobs_under (foldl os_path_join b0 segs) n) =
     map (foldl os_path_join b0) (blob_segments segs n)"
proof (induction n arbitrary: segs)
  case (GitNode e ns)
  have "\<And>n. n \<in> set ns \<Longrightarrow>
      map snd (blobs_under (os_path_join (foldl os_path_join b0 segs) (path e)) n) =
      map (foldl os_path_join b0) (blob_segments (segs @ [path e]) n)"
    using GitNode.IH [of _ "segs @ [path e]"] by simp
  then show ?case by (simp add: map_concat comp_def cong: map_cong)
qed

lemma paths_listing:
  "map snd (concat (map (blobs_under []) nodes)) =
     map joined (concat (map (blob_segments []) nodes))"
proof -
  have "\<And>n. map snd (blobs_under [] n) = map joined (blob_segments [] n)"
    using paths_blobs_under [of "[]" "[]"] by (simp add: joined_def [abs_def])
  then show ?thesis by (simp add: map_concat comp_def)
qed

lemma join_name:
  "name \<noteq> [] \<Longrightarrow> CHR ''/'' \<notin> set name \<Longrightarrow> os_path_join base name = dir_prefix base @ name"
  by (cases name) (auto simp: os_path_join_def dir_prefix_def)

lemma last_name: "name \<noteq> [] \<Longrightarrow> CHR ''/'' \<notin> set name \<Longrightarrow> last name \<noteq> CHR ''/''"
  by (metis last_in_set)

lemma dir_prefix_join:
  "name \<noteq> [] \<Longrightarrow> CHR ''/'' \<notin> set name \<Longrightarrow>
   dir_prefix (os_path_join base name) = dir_prefix base @ name @ ''/''"
  by (simp add: join_name dir_prefix_def [of "dir_prefix base @ name"] last_name)

lemma path_shape:
  "well_named n \<Longrightarrow> p \<in> snd ` set (blobs_under base n) \<Longrightarrow>
   \<exists>suf. p = dir_prefix base @ path (entry n) @ suf \<and> (suf = [] \<or> hd suf = CHR ''/'')"
proof (induction n arbitrary: base p)
  case (GitNode e ns)
  show ?case
  proof (cases "type e = ''tree''")
    case True
    with GitNode.prems obtain c where c: "c \<in> set ns"
      and p: "p \<in> snd ` set (blobs_under (os_path_join base (path e)) c)"
      by auto
    have "well_named c" using GitNode.prems True c by (simp add: list_all_iff)
    from GitNode.IH [OF c this p] obtain suf where
      "p = dir_prefix (os_path_join base (path e)) @ path (entry c) @ suf" by blast
    then have "p = dir_prefix base @ path e @ (''/'' @ path (entry c) @ suf)"
      using GitNode.prems by (simp add: dir_prefix_join)
    then show ?thesis by (intro exI [of _ "''/'' @ path (entry c) @ suf"]) simp
  next
    case False
    with GitNode.prems show ?thesis by (auto simp: join_name split: if_splits)
  qed
qed

lemma first_segment:
  "CHR ''/'' \<notin> set name \<Longrightarrow> suf = [] \<or> hd suf = CHR ''/'' \<Longrightarrow>
   takeWhile (\<lambda>c. c \<noteq> CHR ''/'') (name @ suf) = name"
  by (cases suf) (auto simp: takeWhile_append)

lemma path_names_entry:
  assumes "well_named n" and "p \<in> snd ` set (blobs_under base n)"
  shows "takeWhile (\<lambda>c. c \<noteq> CHR ''/'') (drop (length (dir_prefix base)) p) = path (entry n)"
proof -
  from path_shape [OF assms] obtain suf where
    p: "p = dir_prefix base @ path (entry n) @ suf" and suf: "suf = [] \<or> hd suf = CHR ''/''"
    by blast
  have "CHR ''/'' \<notin> set (path (entry n))" using assms(1) by (cases n) simp
  then show ?thesis using p suf by (simp add: first_segment)
qed

lemma distinct_siblings:
  assumes "distinct (map (path \<circ> entry) ns)"
    and "\<forall>n\<in>set ns. well_named n"
    and "\<forall>n\<in>set ns. distinct (map snd (blobs_under base n))"
  shows "distinct (map snd (concat (map (blobs_under base) ns)))"
  using assms
proof (induction ns)
  case Nil
  then show ?case by simp
next
  case (Cons n ns)
  have "snd ` set (blobs_under base n) \<inter> snd ` set (concat (map (blobs_under base) ns)) = {}"
  proof (rule ccontr)
    assume "\<not> ?thesis"
    then obtain p m where p: "p \<in> snd ` set (blobs_under base n)"
      and m: "m \<in> set ns" and q: "p \<in> snd ` set (blobs_under base m)"
      by auto
    have "path (entry n) = path (entry m)"
      using path_names_entry [OF _ p] path_names_entry [OF _ q] Cons.prems(2) m by simp
    then show False using Cons.prems(1) m by auto
  qed
  then show ?case using Cons by simp
qed

lemma distinct_blobs_under: "well_named n \<Longrightarrow> distinct (map snd (blobs_under base n))"
proof (induction n arbitrary: base)
  case (GitNode e ns)
  show ?case
  proof (cases "type e = ''tree''")
    case True
    have "distinct (map snd (concat (map (blobs_under (os_path_join base (path e))) ns)))"
      using GitNode True by (intro distinct_siblings) (auto simp: list_all_iff)
    then show ?thesis using True by simp
  next
    case False
    then show ?thesis by simp
  qed
qed

lemma distinct_listing:
  assumes "distinct (map (path \<circ> entry) nodes)" and "list_all well_named nodes"
  shows "distinct (map snd (concat (map (blobs_under base) nodes)))"
  using assms by (intro distinct_siblings) (auto simp: list_all_iff distinct_blobs_under)

section \<open>The loop over the blobs\<close>

lemma loop_Cons:
  "generate_documents_loop env r (bp # rest) documents log =
     (case document_for_blob env r bp of
        Inl e \<Rightarrow> (Inl e, log @ [Get_blob (owner r) (repo r) (sha (fst bp))])
      | Inr d \<Rightarrow> generate_documents_loop env r rest (documents @ emitted env r bp)
          (log @ [Get_blob (owner r) (repo r) (sha (fst bp))]))"
  by (simp add: emitted_def Let_def split: sum.splits option.splits)

declare generate_documents_loop.simps(2) [simp del]

lemma loop_append:
  "generate_documents_loop env r (xs @ ys) documents log =
     (case generate_documents_loop env r xs documents log of
        (Inl e, log') \<Rightarrow> (Inl e, log')
      | (Inr documents', log') \<Rightarrow> generate_documents_loop env r ys documents' log')"
proof (induction xs arbitrary: documents log)
  case Nil
  then show ?case by simp
next
  case (Cons bp xs)
  show ?case
    by (cases "document_for_blob env r bp") (simp_all add: loop_Cons Cons.IH)
qed

lemma loop_fst_log:
  "fst (generate_documents_loop env r bps documents log) =
   fst (generate_documents_loop env r bps documents log')"
proof (induction bps arbitrary: documents log log')
  case Nil
  then show ?case by simp
next
  case (Cons bp bps)
  show ?case
    using Cons.IH [of "documents @ emitted env r bp"
        "log @ [Get_blob (owner r) (repo r) (sha (fst bp))]"
        "log' @ [Get_blob (owner r) (repo r) (sha (fst bp))]"]
    by (cases "document_for_blob env r bp") (simp_all add: loop_Cons)
qed

lemma loop_fst_documents:
  "fst (generate_documents_loop env r bps documents log) =
     (case fst (generate_documents_loop env r bps [] log) of
        Inl e \<Rightarrow> Inl e
      | Inr ds \<Rightarrow> Inr (documents @ ds))"
proof (induction bps arbitrary: documents log)
  case Nil
  then show ?case by simp
next
  case (Cons bp bps)
  show ?case
  proof (cases "document_for_blob env r bp")
    case (Inl e)
    then show ?thesis by (simp add: loop_Cons)
  next
    case (Inr d)
    let ?log = "log @ [Get_blob (owner r) (repo r) (sha (fst bp))]"
    have "fst (generate_documents_loop env r bps (documents @ emitted env r bp) ?log) =
        (case fst (generate_documents_loop env r bps [] ?log) of
           Inl e \<Rightarrow> Inl e | Inr ds \<Rightarrow> Inr ((documents @ emitted env r bp) @ ds))"
      by (rule Cons.IH)
    moreover have "fst (generate_documents_loop env r bps ([] @ emitted env r bp) ?log) =
        (case fst (generate_documents_loop env r bps [] ?log) of
           Inl e \<Rightarrow> Inl e | Inr ds \<Rightarrow> Inr (([] @ emitted env r bp) @ ds))"
      by (rule Cons.IH)
    ultimately show ?thesis using Inr
      by (simp add: loop_Cons split: sum.splits)
  qed
qed

lemma loop_success:
  "fst (generate_documents_loop env r bps documents log) = Inr out \<Longrightarrow>
   out = documents @ concat (map (emitted env r) bps) \<and>
   (\<forall>bp\<in>set bps. \<exists>d. document_for_blob env r bp = Inr d)"
proof (induction bps arbitrary: documents log)
  case Nil
  then show ?case by simp
next
  case (Cons bp bps)
  show ?case
  proof (cases "document_for_blob env r bp")
    case (Inl e)
    with Cons.prems show ?thesis by (simp add: loop_Cons)
  next
    case (Inr d)
    with Cons.prems have
      "fst (generate_documents_loop env r bps (documents @ emitted env r bp)
         (log @ [Get_blob (owner r) (repo r) (sha (fst bp))])) = Inr out"
      by (simp add: loop_Cons)
    from Cons.IH [OF this] Inr show ?thesis by simp
  qed
qed

lemma emitted_length: "length (emitted env r bp) \<le> 1"
  by (simp add: emitted_def split: sum.splits option.splits)

lemma length_concat_emitted: "length (concat (map (emitted env r) bps)) \<le> length bps"
proof (induction bps)
  case Nil
  then show ?case by simp
next
  case (Cons bp bps)
  then show ?case using emitted_length [of env r bp] by simp
qed

lemma emitted_sources:
  "\<exists>bs. subseq bs bps \<and>
     list_all2 (\<lambda>bp d. document_for_blob env r bp = Inr (Some d)) bs
       (concat (map (emitted env r) bps))"
proof (induction bps)
  case Nil
  then show ?case by simp
next
  case (Cons bp bps)
  then obtain bs where bs: "subseq bs bps"
    "list_all2 (\<lambda>bp d. document_for_blob env r bp = Inr (Some d)) bs
       (concat (map (emitted env r) bps))" by blast
  show ?case
  proof (cases "emitted env r bp")
    case Nil
    then show ?thesis using bs by (intro exI [of _ bs]) (simp add: list_emb_Cons)
  next
    case (Cons d ds)
    then have "emitted env r bp = [d]" "document_for_blob env r bp = Inr (Some d)"
      by (auto simp: emitted_def split: sum.splits option.splits)
    then show ?thesis using bs by (intro exI [of _ "bp # bs"]) simp
  qed
qed

section \<open>Construction needs a token\<close>

text \<open>
  C7. Without a token, neither as a parameter nor in the environment variable,
  \<^verbatim>\<open>__init__\<close> raises its \<^verbatim>\<open>ValueError\<close> and no call has been made to the client; with a
  token from either place it returns the reader, whose client is built from that
  token, the parameter first.
\<close>

theorem init_requires_token:
  "(github_token = None \<and> environ ''GITHUB_TOKEN'' = None \<longrightarrow>
      init new_client environ ow rp up vb github_token log =
        (Inl (ValueError
           (''Please provide a Github token. You can do so by passing it as an argument or'' @
            ''by setting the GITHUB_TOKEN environment variable.'')), log)) \<and>
   (github_token = Some t \<longrightarrow>
      init new_client environ ow rp up vb github_token log =
        (Inr \<lparr>owner = ow, repo = rp, use_parser = up, verbose = vb,
              client = new_client t\<rparr>, log)) \<and>
   (github_token = None \<and> environ ''GITHUB_TOKEN'' = Some t \<longrightarrow>
      init new_client environ ow rp up vb github_token log =
        (Inr \<lparr>owner = ow, repo = rp, use_parser = up, verbose = vb,
              client = new_client t\<rparr>, log))"
  by (simp add: init_def)

theorem init_requires_token_witness:
  "init (\<lambda>t. demo_client) Map.empty ''jerryjliu'' ''gpt_index'' True False None [] =
     (Inl (ValueError
        (''Please provide a Github token. You can do so by passing it as an argument or'' @
         ''by setting the GITHUB_TOKEN environment variable.'')), []) \<and>
   init (\<lambda>t. demo_client) Map.empty ''jerryjliu'' ''gpt_index'' True False (Some ''ghp_1'') [] =
     (Inr demo_reader, []) \<and>
   init (\<lambda>t. demo_client) [''GITHUB_TOKEN'' \<mapsto> ''ghp_2''] ''jerryjliu'' ''gpt_index'' True False
       None [] =
     (Inr demo_reader, [])"
  using init_requires_token [of None Map.empty "\<lambda>t. demo_client" "''jerryjliu''" "''gpt_index''"
      True False "[]" "''ghp_1''"]
    init_requires_token [of "Some ''ghp_1''" Map.empty "\<lambda>t. demo_client" "''jerryjliu''"
      "''gpt_index''" True False "[]" "''ghp_1''"]
    init_requires_token [of None "[''GITHUB_TOKEN'' \<mapsto> ''ghp_2'']" "\<lambda>t. demo_client"
      "''jerryjliu''" "''gpt_index''" True False "[]" "''ghp_2''"]
  by (simp add: demo_reader_def)

section \<open>The walk returns every blob once, under its path\<close>

lemma blobs_under_blobs: "list_all (\<lambda>bp. type (fst bp) = ''blob'') (blobs_under base n)"
proof (induction n arbitrary: base)
  case (GitNode e ns)
  then show ?case by (simp add: list_all_iff)
qed

text \<open>
  C2. When the client serves, from the root identity on, a tree whose nesting the
  recursion bound exceeds, the walk returns, and it returns as many pairs as the tree
  has blob entries at any depth, each a blob entry, with the paths obtained by joining
  the names of the enclosing trees and the entry's own name, in depth-first order.
  When names are as Git has them (not empty, without a separator, different within one
  tree) the paths are pairwise different.
\<close>

theorem recurse_tree_blobs:
  assumes "serves (client r) (owner r) (repo r) root nodes"
    and "max_list (map tree_depth nodes) < fuel"
  shows "\<exists>found log'.
    recurse_tree fuel r root [] 0 log = Some (Inr found, log') \<and>
    length found = sum_list (map blob_count nodes) \<and>
    list_all (\<lambda>bp. type (fst bp) = ''blob'') found \<and>
    map snd found = map joined (concat (map (blob_segments []) nodes)) \<and>
    (distinct (map (path \<circ> entry) nodes) \<and> list_all well_named nodes \<longrightarrow>
       distinct (map snd found))"
proof -
  let ?found = "concat (map (blobs_under []) nodes)"
  have "map_option fst (recurse_tree fuel r root [] 0 log) = Some (Inr ?found)"
    using assms by (rule walk_listing)
  then obtain log' where "recurse_tree fuel r root [] 0 log = Some (Inr ?found, log')"
    by (cases "recurse_tree fuel r root [] 0 log") auto
  moreover have "length ?found = sum_list (map blob_count nodes)"
    by (rule length_listing)
  moreover have "list_all (\<lambda>bp. type (fst bp) = ''blob'') ?found"
    using blobs_under_blobs by (simp add: list_all_iff)
  moreover have "map snd ?found = map joined (concat (map (blob_segments []) nodes))"
    by (rule paths_listing)
  moreover have "distinct (map snd ?found)"
    if "distinct (map (path \<circ> entry) nodes)" and "list_all well_named nodes"
    using that by (rule distinct_listing)
  ultimately show ?thesis by blast
qed

lemma demo_serves:
  "serves (client demo_reader) (owner demo_reader) (repo demo_reader) ''t0'' demo_nodes"
  by (simp add: serves_def demo_reader_def demo_client_def demo_nodes_def
      a_txt_def b_dir_def c_bin_def d_md_def vendor_def)

lemma demo_depth: "max_list (map tree_depth demo_nodes) < 2"
  by (simp add: max_list_def demo_nodes_def a_txt_def b_dir_def c_bin_def d_md_def vendor_def)

lemma demo_well_named:
  "distinct (map (path \<circ> entry) demo_nodes) \<and> list_all well_named demo_nodes"
  by (simp add: demo_nodes_def a_txt_def b_dir_def c_bin_def d_md_def vendor_def)

lemma demo_blob_count: "sum_list (map blob_count demo_nodes) = 3"
  by (simp add: demo_nodes_def a_txt_def b_dir_def c_bin_def d_md_def vendor_def)

lemma demo_paths:
  "map joined (concat (map (blob_segments []) demo_nodes)) = [''a.txt'', ''b/c.bin'', ''d.md'']"
  by (simp add: demo_nodes_def a_txt_def b_dir_def c_bin_def d_md_def vendor_def
      joined_def os_path_join_def)

theorem recurse_tree_blobs_witness:
  "serves (client demo_reader) (owner demo_reader) (repo demo_reader) ''t0'' demo_nodes \<and>
   max_list (map tree_depth demo_nodes) < 2 \<and>
   (\<exists>found log'.
      recurse_tree 2 demo_reader ''t0'' [] 0 [] = Some (Inr found, log') \<and>
      length found = 3 \<and>
      map snd found = [''a.txt'', ''b/c.bin'', ''d.md''] \<and>
      distinct (map snd found))"
proof -
  from recurse_tree_blobs [OF demo_serves demo_depth, of "[]"] obtain found log' where
    f: "recurse_tree 2 demo_reader ''t0'' [] 0 [] = Some (Inr found, log') \<and>
      length found = 3 \<and>
      map snd found = [''a.txt'', ''b/c.bin'', ''d.md''] \<and>
      distinct (map snd found)"
    using demo_well_named by (auto simp: demo_blob_count demo_paths)
  have e: "\<exists>found log'.
      recurse_tree 2 demo_reader ''t0'' [] 0 [] = Some (Inr found, log') \<and>
      length found = 3 \<and>
      map snd found = [''a.txt'', ''b/c.bin'', ''d.md''] \<and>
      distinct (map snd found)"
    by (rule exI [where x = found], rule exI [where x = log'], rule f)
  show ?thesis
    by (rule conjI, rule demo_serves, rule conjI, rule demo_depth, rule e)
qed

section \<open>The example, evaluated\<close>

lemmas demo_defs =
  demo_env_def demo_reader_def plain_reader_def demo_client_def demo_b64decode_def
  demo_utf8_decode_def md_parser_def failing_parser_def parse_supported_file_def
  os_path_splitext_def os_path_basename_def rfind_def Let_def
  a_txt_def b_dir_def c_bin_def d_md_def vendor_def e_dat_def f_raw_def g_cfg_def
  h_dat_def i_dat_def
  hello_document_def title_document_def parsed_document_def cfg_document_def

lemma demo_a_txt: "document_for_blob demo_env demo_reader (a_txt, ''a.txt'') = Inr (Some hello_document)"
  by (simp add: demo_defs)

lemma demo_c_bin: "document_for_blob demo_env demo_reader (c_bin, ''b/c.bin'') = Inr None"
  by (simp add: demo_defs)

lemma demo_d_md: "document_for_blob demo_env demo_reader (d_md, ''d.md'') = Inr (Some parsed_document)"
  by (simp add: demo_defs)

lemma demo_e_dat: "document_for_blob demo_env demo_reader (e_dat, ''e.dat'') = Inr None"
  by (simp add: demo_defs)

lemma demo_f_raw:
  "document_for_blob demo_env demo_reader (f_raw, ''f.raw'') =
     Inl (AssertionError ''blob encoding utf-8 not supported'')"
  by (simp add: demo_defs)

lemma demo_g_cfg:
  "document_for_blob demo_env demo_reader (g_cfg, ''conf/setup.cfg'') = Inr (Some cfg_document)"
  by (simp add: demo_defs)

lemma plain_a_txt: "document_for_blob demo_env plain_reader (a_txt, ''a.txt'') = Inr (Some hello_document)"
  by (simp add: demo_defs)

lemma plain_c_bin: "document_for_blob demo_env plain_reader (c_bin, ''b/c.bin'') = Inr None"
  by (simp add: demo_defs)

lemma plain_d_md: "document_for_blob demo_env plain_reader (d_md, ''d.md'') = Inr (Some title_document)"
  by (simp add: demo_defs)

lemma demo_listing: "concat (map (blobs_under []) demo_nodes) = demo_walk"
  by (simp add: demo_nodes_def demo_walk_def a_txt_def b_dir_def c_bin_def d_md_def vendor_def
      os_path_join_def)

lemma demo_documents:
  "fst (generate_documents demo_env demo_reader demo_walk log) = Inr [hello_document, parsed_document]"
  by (simp add: generate_documents_def demo_walk_def loop_Cons emitted_def
      demo_a_txt demo_c_bin demo_d_md del: document_for_blob.simps)

lemma plain_documents:
  "fst (generate_documents demo_env plain_reader demo_walk log) = Inr [hello_document, title_document]"
  by (simp add: generate_documents_def demo_walk_def loop_Cons emitted_def
      plain_a_txt plain_c_bin plain_d_md del: document_for_blob.simps)

section \<open>At most one document for a blob\<close>

text \<open>
  C9. When \<^verbatim>\<open>_generate_documents\<close> returns, it returns at most as many documents as it
  was given pairs, and the documents are, in order, those of a subsequence of the
  pairs: every document is the one the loop made for a pair of its own.
\<close>

theorem at_most_one_document_per_blob:
  assumes "fst (generate_documents env r blobs_and_paths log) = Inr documents"
  shows "length documents \<le> length blobs_and_paths \<and>
    (\<exists>sources. subseq sources blobs_and_paths \<and>
       list_all2 (\<lambda>bp d. document_for_blob env r bp = Inr (Some d)) sources documents)"
proof -
  have d: "documents = concat (map (emitted env r) blobs_and_paths)"
    using loop_success [of env r blobs_and_paths "[]" log documents] assms
    by (simp add: generate_documents_def)
  show ?thesis
    unfolding d using length_concat_emitted emitted_sources by blast
qed

theorem at_most_one_document_per_blob_witness:
  "fst (generate_documents demo_env demo_reader demo_walk []) =
     Inr [hello_document, parsed_document] \<and>
   length [hello_document, parsed_document] \<le> length demo_walk \<and>
   (\<exists>sources. subseq sources demo_walk \<and>
      list_all2 (\<lambda>bp d. document_for_blob demo_env demo_reader bp = Inr (Some d)) sources
        [hello_document, parsed_document])"
  by (rule conjI, rule demo_documents, rule at_most_one_document_per_blob, rule demo_documents)

section \<open>Documents come in the order of the walk\<close>

lemma generate_documents_fst_log:
  "fst (generate_documents env r bps log) = fst (generate_documents env r bps log')"
  unfolding generate_documents_def by (rule loop_fst_log)

lemma load_from_tree:
  assumes "serves (client r) (owner r) (repo r) root nodes"
    and "max_list (map tree_depth nodes) < fuel"
  shows "map_option fst
      (case recurse_tree fuel r root [] 0 log of
         None \<Rightarrow> None
       | Some (Inl e, log'') \<Rightarrow> Some (Inl e, log'')
       | Some (Inr blobs_and_paths, log'') \<Rightarrow>
           Some (generate_documents env r blobs_and_paths log'')) =
    Some (fst (generate_documents env r (concat (map (blobs_under []) nodes)) []))"
proof -
  have "map_option fst (recurse_tree fuel r root [] 0 log) =
      Some (Inr (concat (map (blobs_under []) nodes)))"
    using assms by (rule walk_listing)
  then obtain log' where
    "recurse_tree fuel r root [] 0 log = Some (Inr (concat (map (blobs_under []) nodes)), log')"
    by (cases "recurse_tree fuel r root [] 0 log") auto
  then show ?thesis
    using generate_documents_fst_log [of env r "concat (map (blobs_under []) nodes)" log' "[]"]
    by simp
qed

lemma load_data_served:
  assumes "serves (client r) (owner r) (repo r) root nodes"
    and "max_list (map tree_depth nodes) < fuel"
    and "commit_sha = Some c \<and> branch = None \<and>
           get_commit (client r) (owner r) (repo r) c = Inr root \<or>
         commit_sha = None \<and> branch = Some b \<and>
           get_branch (client r) (owner r) (repo r) b = Inr root"
  shows "map_option fst (load_data fuel env r commit_sha branch log) =
    Some (fst (generate_documents env r (concat (map (blobs_under []) nodes)) []))"
  using assms(3) load_from_tree [OF assms(1,2)]
  by (auto simp: load_data_def load_data_from_commit_def load_data_from_branch_def)

text \<open>
  C10. When the client serves a tree from the root identity of the commit or branch,
  the walk returns the depth-first listing of that tree (the entries of every tree in
  the order the client gave them, a tree entry replaced by the listing of its own
  entries), and the documents \<^verbatim>\<open>load_data\<close> returns are what the loop made for the pairs
  of that listing, in its order.
\<close>

theorem documents_in_walk_order:
  assumes "serves (client r) (owner r) (repo r) root nodes"
    and "max_list (map tree_depth nodes) < fuel"
    and "commit_sha = Some c \<and> branch = None \<and>
           get_commit (client r) (owner r) (repo r) c = Inr root \<or>
         commit_sha = None \<and> branch = Some b \<and>
           get_branch (client r) (owner r) (repo r) b = Inr root"
  shows "\<exists>walk log1 result log2.
    recurse_tree fuel r root [] 0 log = Some (Inr walk, log1) \<and>
    walk = concat (map (blobs_under []) nodes) \<and>
    load_data fuel env r commit_sha branch log = Some (result, log2) \<and>
    (\<forall>documents. result = Inr documents \<longrightarrow>
       documents = concat (map (emitted env r) walk))"
proof -
  let ?walk = "concat (map (blobs_under []) nodes)"
  have "map_option fst (recurse_tree fuel r root [] 0 log) = Some (Inr ?walk)"
    using assms(1,2) by (rule walk_listing)
  then obtain log1 where w: "recurse_tree fuel r root [] 0 log = Some (Inr ?walk, log1)"
    by (cases "recurse_tree fuel r root [] 0 log") auto
  have "map_option fst (load_data fuel env r commit_sha branch log) =
      Some (fst (generate_documents env r ?walk []))"
    using assms by (rule load_data_served)
  then obtain log2 where
    l: "load_data fuel env r commit_sha branch log =
      Some (fst (generate_documents env r ?walk []), log2)"
    by (cases "load_data fuel env r commit_sha branch log") auto
  have "documents = concat (map (emitted env r) ?walk)"
    if "fst (generate_documents env r ?walk []) = Inr documents" for documents
    using loop_success [of env r ?walk "[]" "[]" documents] that
    by (simp add: generate_documents_def)
  with w l show ?thesis by blast
qed

lemma demo_commit:
  "Some ''c0'' = Some ''c0'' \<and> None = None \<and>
     get_commit (client demo_reader) (owner demo_reader) (repo demo_reader) ''c0'' = Inr ''t0'' \<or>
   Some ''c0'' = None \<and> None = Some ''main'' \<and>
     get_branch (client demo_reader) (owner demo_reader) (repo demo_reader) ''main'' = Inr ''t0''"
  by (simp add: demo_reader_def demo_client_def)

theorem documents_in_walk_order_witness:
  "serves (client demo_reader) (owner demo_reader) (repo demo_reader) ''t0'' demo_nodes \<and>
   max_list (map tree_depth demo_nodes) < 2 \<and>
   get_commit (client demo_reader) (owner demo_reader) (repo demo_reader) ''c0'' = Inr ''t0'' \<and>
   (\<exists>log1 log2.
      recurse_tree 2 demo_reader ''t0'' [] 0 [] = Some (Inr demo_walk, log1) \<and>
      load_data 2 demo_env demo_reader (Some ''c0'') None [] =
        Some (Inr [hello_document, parsed_document], log2) \<and>
      [hello_document, parsed_document] = concat (map (emitted demo_env demo_reader) demo_walk))"
proof -
  from documents_in_walk_order [OF demo_serves demo_depth demo_commit, of "[]" demo_env]
  obtain log1 result log2 where
    w: "recurse_tree 2 demo_reader ''t0'' [] 0 [] = Some (Inr demo_walk, log1)"
    and l: "load_data 2 demo_env demo_reader (Some ''c0'') None [] = Some (result, log2)"
    and d: "\<And>documents. result = Inr documents \<Longrightarrow>
       documents = concat (map (emitted demo_env demo_reader) demo_walk)"
    unfolding demo_listing by blast
  have "map_option fst (load_data 2 demo_env demo_reader (Some ''c0'') None []) =
      Some (Inr [hello_document, parsed_document])"
    using load_data_served [OF demo_serves demo_depth demo_commit, of demo_env "[]"]
    by (simp add: demo_listing demo_documents)
  with l have r: "result = Inr [hello_document, parsed_document]" by simp
  have e: "\<exists>log1 log2.
      recurse_tree 2 demo_reader ''t0'' [] 0 [] = Some (Inr demo_walk, log1) \<and>
      load_data 2 demo_env demo_reader (Some ''c0'') None [] =
        Some (Inr [hello_document, parsed_document], log2) \<and>
      [hello_document, parsed_document] = concat (map (emitted demo_env demo_reader) demo_walk)"
    using w l d [OF r] unfolding r by (intro exI [where x = log1] exI [where x = log2] conjI)
  have c: "get_commit (client demo_reader) (owner demo_reader) (repo demo_reader) ''c0'' = Inr ''t0''"
    by (simp add: demo_reader_def demo_client_def)
  show ?thesis
    by (rule conjI, rule demo_serves, rule conjI, rule demo_depth, rule conjI, rule c, rule e)
qed

section \<open>One blob in the loop\<close>

lemma loop_skip:
  assumes "document_for_blob env r bp = Inr None"
  shows "generate_documents_loop env r (bp # rest) documents log =
      generate_documents_loop env r rest documents
        (log @ [Get_blob (owner r) (repo r) (sha (fst bp))])"
  using assms by (simp add: loop_Cons emitted_def)

lemma loop_emit:
  assumes "document_for_blob env r bp = Inr (Some d)"
  shows "generate_documents_loop env r (bp # rest) documents log =
      generate_documents_loop env r rest (documents @ [d])
        (log @ [Get_blob (owner r) (repo r) (sha (fst bp))])"
  using assms by (simp add: loop_Cons emitted_def)

lemma loop_raise:
  assumes "document_for_blob env r bp = Inl e"
  shows "generate_documents_loop env r (bp # rest) documents log =
      (Inl e, log @ [Get_blob (owner r) (repo r) (sha (fst bp))])"
  using assms by (simp add: loop_Cons)

lemma crawl_skip:
  assumes "document_for_blob env r bp = Inr None"
  shows "fst (generate_documents env r (before @ bp # rest) log) =
      fst (generate_documents env r (before @ rest) log)"
proof (cases "generate_documents_loop env r before [] log")
  case (Pair res log')
  show ?thesis
  proof (cases res)
    case (Inl e)
    with Pair show ?thesis by (simp add: generate_documents_def loop_append)
  next
    case (Inr ds)
    with Pair show ?thesis
      using loop_fst_log [of env r rest ds
          "log' @ [Get_blob (owner r) (repo r) (sha (fst bp))]" log']
      by (simp add: generate_documents_def loop_append loop_skip [OF assms])
  qed
qed

lemma crawl_raise:
  assumes "document_for_blob env r bp = Inl e"
    and "fst (generate_documents env r before log) = Inr ds"
  shows "fst (generate_documents env r (before @ bp # rest) log) = Inl e"
proof (cases "generate_documents_loop env r before [] log")
  case (Pair res log')
  with assms(2) have "res = Inr ds" by (simp add: generate_documents_def)
  with Pair show ?thesis
    by (simp add: generate_documents_def loop_append loop_raise [OF assms(1)])
qed

section \<open>A blob with a parser\<close>

text \<open>
  C3. For a blob that was fetched and decoded, with the parsers switched on and a
  parser registered for the extension of its path that returns text segments, the loop
  appends exactly one document and goes on with the next pair: its \<open>doc_id\<close> is the
  hash of the fetched blob, its text the segments joined by two newlines, and its
  \<open>extra_info\<close> has \<^verbatim>\<open>file_path\<close> and \<^verbatim>\<open>file_name\<close>, both the full path.
\<close>

theorem parsed_blob_document:
  assumes "get_blob (client r) (owner r) (repo r) (sha blob_object) = Inr blob_data"
    and "encoding blob_data = ''base64''"
    and "b64decode env (content blob_data) = Inr decoded_bytes"
    and "use_parser r"
    and "DEFAULT_FILE_EXTRACTOR env (get_file_extension env full_path) = Some parser"
    and "init_parser parser = None"
    and "parse_file parser decoded_bytes = Inr segments"
  shows "emitted env r (blob_object, full_path) =
      [\<lparr>doc_text = str_join [CHR 0x0A, CHR 0x0A] segments,
        doc_id = Some (sha blob_data),
        extra_info = [(''file_path'', full_path), (''file_name'', full_path)]\<rparr>] \<and>
    generate_documents_loop env r ((blob_object, full_path) # rest) documents log =
      generate_documents_loop env r rest
        (documents @
         [\<lparr>doc_text = str_join [CHR 0x0A, CHR 0x0A] segments,
           doc_id = Some (sha blob_data),
           extra_info = [(''file_path'', full_path), (''file_name'', full_path)]\<rparr>])
        (log @ [Get_blob (owner r) (repo r) (sha blob_object)])"
proof -
  have "document_for_blob env r (blob_object, full_path) =
      Inr (Some \<lparr>doc_text = str_join [CHR 0x0A, CHR 0x0A] segments,
        doc_id = Some (sha blob_data),
        extra_info = [(''file_path'', full_path), (''file_name'', full_path)]\<rparr>)"
    using assms by (simp add: parse_supported_file_def)
  then show ?thesis
    using loop_emit [of env r "(blob_object, full_path)" _ rest documents log]
    by (simp add: emitted_def del: document_for_blob.simps)
qed

theorem parsed_blob_document_witness:
  "get_blob (client demo_reader) (owner demo_reader) (repo demo_reader) (sha d_md) =
     Inr \<lparr>sha = ''b3'', encoding = ''base64'', content = ''IyBUaXRsZQ==''\<rparr> \<and>
   b64decode demo_env ''IyBUaXRsZQ=='' = Inr ''# Title'' \<and>
   use_parser demo_reader \<and>
   DEFAULT_FILE_EXTRACTOR demo_env (get_file_extension demo_env ''d.md'') = Some md_parser \<and>
   init_parser md_parser = None \<and>
   parse_file md_parser ''# Title'' = Inr [''Title'', ''Body''] \<and>
   emitted demo_env demo_reader (d_md, ''d.md'') = [parsed_document] \<and>
   generate_documents_loop demo_env demo_reader [(d_md, ''d.md'')] [] [] =
     (Inr [parsed_document], [Get_blob ''jerryjliu'' ''gpt_index'' ''b3''])"
proof -
  have h: "get_blob (client demo_reader) (owner demo_reader) (repo demo_reader) (sha d_md) =
      Inr \<lparr>sha = ''b3'', encoding = ''base64'', content = ''IyBUaXRsZQ==''\<rparr>"
    "encoding \<lparr>sha = ''b3'', encoding = ''base64'', content = ''IyBUaXRsZQ==''\<rparr> = ''base64''"
    "b64decode demo_env (content \<lparr>sha = ''b3'', encoding = ''base64'',
       content = ''IyBUaXRsZQ==''\<rparr>) = Inr ''# Title''"
    "use_parser demo_reader"
    "DEFAULT_FILE_EXTRACTOR demo_env (get_file_extension demo_env ''d.md'') = Some md_parser"
    "init_parser md_parser = None"
    "parse_file md_parser ''# Title'' = Inr [''Title'', ''Body'']"
    by (simp_all add: demo_defs)
  show ?thesis
    using parsed_blob_document [OF h, of "[]" "[]" "[]"] h
    by (simp add: parsed_document_def demo_reader_def d_md_def del: document_for_blob.simps)
qed

section \<open>A text blob without a parser\<close>

text \<open>
  C4. For a fetched blob whose content decodes from base64 to bytes that decode from
  UTF-8 to the text \<open>C\<close>, and whose path has an extension without a registered parser,
  the loop appends one document and goes on: its text is \<open>C\<close>, and its \<open>extra_info\<close>
  has \<^verbatim>\<open>full_path\<close>, \<^verbatim>\<open>file_name\<close> (the base name of the path) and \<^verbatim>\<open>file_extension\<close> (the
  extension of the path).
\<close>

theorem text_blob_document:
  assumes "get_blob (client r) (owner r) (repo r) (sha blob_object) = Inr blob_data"
    and "encoding blob_data = ''base64''"
    and "b64decode env (content blob_data) = Inr decoded_bytes"
    and "utf8_decode env decoded_bytes = Some C"
    and "DEFAULT_FILE_EXTRACTOR env (get_file_extension env full_path) = None"
  shows "emitted env r (blob_object, full_path) =
      [\<lparr>doc_text = C, doc_id = None,
        extra_info = [(''full_path'', full_path),
                      (''file_name'', os_path_basename full_path),
                      (''file_extension'', snd (os_path_splitext full_path))]\<rparr>] \<and>
    generate_documents_loop env r ((blob_object, full_path) # rest) documents log =
      generate_documents_loop env r rest
        (documents @
         [\<lparr>doc_text = C, doc_id = None,
           extra_info = [(''full_path'', full_path),
                         (''file_name'', os_path_basename full_path),
                         (''file_extension'', snd (os_path_splitext full_path))]\<rparr>])
        (log @ [Get_blob (owner r) (repo r) (sha blob_object)])"
proof -
  have "document_for_blob env r (blob_object, full_path) =
      Inr (Some \<lparr>doc_text = C, doc_id = None,
        extra_info = [(''full_path'', full_path),
                      (''file_name'', os_path_basename full_path),
                      (''file_extension'', snd (os_path_splitext full_path))]\<rparr>)"
    using assms by (simp add: parse_supported_file_def)
  then show ?thesis
    using loop_emit [of env r "(blob_object, full_path)" _ rest documents log]
    by (simp add: emitted_def del: document_for_blob.simps)
qed

theorem text_blob_document_witness:
  "get_blob (client demo_reader) (owner demo_reader) (repo demo_reader) (sha g_cfg) =
     Inr \<lparr>sha = ''b6'', encoding = ''base64'', content = ''aGVsbG8=''\<rparr> \<and>
   b64decode demo_env ''aGVsbG8='' = Inr ''hello'' \<and>
   utf8_decode demo_env ''hello'' = Some ''hello'' \<and>
   DEFAULT_FILE_EXTRACTOR demo_env (get_file_extension demo_env ''conf/setup.cfg'') = None \<and>
   emitted demo_env demo_reader (g_cfg, ''conf/setup.cfg'') = [cfg_document] \<and>
   generate_documents_loop demo_env demo_reader [(g_cfg, ''conf/setup.cfg'')] [] [] =
     (Inr [cfg_document], [Get_blob ''jerryjliu'' ''gpt_index'' ''b6''])"
proof -
  have h: "get_blob (client demo_reader) (owner demo_reader) (repo demo_reader) (sha g_cfg) =
      Inr \<lparr>sha = ''b6'', encoding = ''base64'', content = ''aGVsbG8=''\<rparr>"
    "encoding \<lparr>sha = ''b6'', encoding = ''base64'', content = ''aGVsbG8=''\<rparr> = ''base64''"
    "b64decode demo_env (content \<lparr>sha = ''b6'', encoding = ''base64'',
       content = ''aGVsbG8=''\<rparr>) = Inr ''hello''"
    "utf8_decode demo_env ''hello'' = Some ''hello''"
    "DEFAULT_FILE_EXTRACTOR demo_env (get_file_extension demo_env ''conf/setup.cfg'') = None"
    by (simp_all add: demo_defs)
  have p: "os_path_basename ''conf/setup.cfg'' = ''setup.cfg''"
    "snd (os_path_splitext ''conf/setup.cfg'') = ''.cfg''"
    by (simp_all add: os_path_basename_def os_path_splitext_def rfind_def Let_def)
  show ?thesis
    using text_blob_document [OF h, of "[]" "[]" "[]"] h
    by (simp add: cfg_document_def demo_reader_def g_cfg_def p del: document_for_blob.simps)
qed

section \<open>A blob that does not decode\<close>

text \<open>
  C5, as the reader behaves. For a fetched blob whose content makes \<^verbatim>\<open>b64decode\<close> raise \<^verbatim>\<open>binascii.Error\<close>, or whose
  bytes, with no document from a parser, do not decode as UTF-8, the loop appends
  nothing, raises nothing and goes on with the pairs that follow: the crawl's result
  is that of the crawl without the pair.
\<close>

theorem undecodable_blob_skipped:
  assumes "get_blob (client r) (owner r) (repo r) (sha blob_object) = Inr blob_data"
    and "encoding blob_data = ''base64''"
    and "(\<exists>e. b64decode env (content blob_data) = Inl (BinasciiError e)) \<or>
         (\<exists>decoded_bytes. b64decode env (content blob_data) = Inr decoded_bytes \<and>
            (use_parser r \<longrightarrow>
               parse_supported_file env r full_path decoded_bytes (sha blob_data) full_path =
                 Inr None) \<and>
            utf8_decode env decoded_bytes = None)"
  shows "emitted env r (blob_object, full_path) = [] \<and>
    generate_documents_loop env r ((blob_object, full_path) # rest) documents log =
      generate_documents_loop env r rest documents
        (log @ [Get_blob (owner r) (repo r) (sha blob_object)]) \<and>
    fst (generate_documents env r (before @ (blob_object, full_path) # rest) log) =
      fst (generate_documents env r (before @ rest) log)"
proof -
  have n: "document_for_blob env r (blob_object, full_path) = Inr None"
    using assms by auto
  show ?thesis
    using loop_skip [OF n, of rest documents log] crawl_skip [OF n, of before rest log]
    by (simp add: emitted_def n del: document_for_blob.simps)
qed

theorem undecodable_blob_skipped_witness:
  "get_blob (client demo_reader) (owner demo_reader) (repo demo_reader) (sha e_dat) =
     Inr \<lparr>sha = ''b4'', encoding = ''base64'', content = ''a''\<rparr> \<and>
   b64decode demo_env ''a'' = Inl (BinasciiError ''Incorrect padding'') \<and>
   fst (generate_documents demo_env demo_reader
         ([(a_txt, ''a.txt'')] @ (e_dat, ''e.dat'') # [(d_md, ''d.md'')]) []) =
     Inr [hello_document, parsed_document] \<and>
   get_blob (client demo_reader) (owner demo_reader) (repo demo_reader) (sha c_bin) =
     Inr \<lparr>sha = ''b2'', encoding = ''base64'', content = ''//4=''\<rparr> \<and>
   b64decode demo_env ''//4='' = Inr [CHR 0xFF, CHR 0xFE] \<and>
   parse_supported_file demo_env demo_reader ''b/c.bin'' [CHR 0xFF, CHR 0xFE] ''b2'' ''b/c.bin'' =
     Inr None \<and>
   utf8_decode demo_env [CHR 0xFF, CHR 0xFE] = None \<and>
   fst (generate_documents demo_env demo_reader
         ([(a_txt, ''a.txt'')] @ (c_bin, ''b/c.bin'') # [(d_md, ''d.md'')]) []) =
     Inr [hello_document, parsed_document]"
proof -
  have e: "get_blob (client demo_reader) (owner demo_reader) (repo demo_reader) (sha e_dat) =
      Inr \<lparr>sha = ''b4'', encoding = ''base64'', content = ''a''\<rparr>"
    "encoding \<lparr>sha = ''b4'', encoding = ''base64'', content = ''a''\<rparr> = ''base64''"
    "b64decode demo_env ''a'' = Inl (BinasciiError ''Incorrect padding'')"
    by (simp_all add: demo_defs)
  have c: "get_blob (client demo_reader) (owner demo_reader) (repo demo_reader) (sha c_bin) =
      Inr \<lparr>sha = ''b2'', encoding = ''base64'', content = ''//4=''\<rparr>"
    "encoding \<lparr>sha = ''b2'', encoding = ''base64'', content = ''//4=''\<rparr> = ''base64''"
    "b64decode demo_env ''//4='' = Inr [CHR 0xFF, CHR 0xFE]"
    "parse_supported_file demo_env demo_reader ''b/c.bin'' [CHR 0xFF, CHR 0xFE] ''b2'' ''b/c.bin'' =
       Inr None"
    "utf8_decode demo_env [CHR 0xFF, CHR 0xFE] = None"
    by (simp_all add: demo_defs)
  have rest: "fst (generate_documents demo_env demo_reader
      ([(a_txt, ''a.txt'')] @ [(d_md, ''d.md'')]) []) = Inr [hello_document, parsed_document]"
    by (simp add: generate_documents_def loop_Cons emitted_def demo_a_txt demo_d_md
        del: document_for_blob.simps)
  have "fst (generate_documents demo_env demo_reader
      ([(a_txt, ''a.txt'')] @ (e_dat, ''e.dat'') # [(d_md, ''d.md'')]) []) =
      Inr [hello_document, parsed_document]"
    using undecodable_blob_skipped [OF e(1,2), of demo_env "''e.dat''" "[(d_md, ''d.md'')]"
        "[]" "[]" "[(a_txt, ''a.txt'')]"] e(3) rest
    by (simp del: document_for_blob.simps)
  moreover have "fst (generate_documents demo_env demo_reader
      ([(a_txt, ''a.txt'')] @ (c_bin, ''b/c.bin'') # [(d_md, ''d.md'')]) []) =
      Inr [hello_document, parsed_document]"
    using undecodable_blob_skipped [OF c(1,2), of demo_env "''b/c.bin''" "[(d_md, ''d.md'')]"
        "[]" "[]" "[(a_txt, ''a.txt'')]"] c(3,4,5) rest
    by (simp del: document_for_blob.simps)
  ultimately show ?thesis using e c by simp
qed

text \<open>
  Content that is not base64 is not always skipped. The handler names \<^verbatim>\<open>binascii.Error\<close>
  alone, and the decoder is the lenient one: in the example, the content E9 makes it
  raise a \<^verbatim>\<open>ValueError\<close>, which ends the crawl before \<^verbatim>\<open>a.txt\<close> is fetched, and the
  content with the \<^verbatim>\<open>!\<close> decodes, so that a document is made for it.
\<close>

theorem undecodable_blob_counterexample:
  "get_blob (client demo_reader) (owner demo_reader) (repo demo_reader) (sha h_dat) =
     Inr \<lparr>sha = ''b7'', encoding = ''base64'', content = [CHR 0xE9]\<rparr> \<and>
   b64decode demo_env [CHR 0xE9] =
     Inl (OtherB64Exception ''string argument should contain only ASCII characters'') \<and>
   generate_documents demo_env demo_reader [(h_dat, ''h.dat''), (a_txt, ''a.txt'')] [] =
     (Inl (DecodeError ''string argument should contain only ASCII characters''),
      [Get_blob ''jerryjliu'' ''gpt_index'' ''b7'']) \<and>
   get_blob (client demo_reader) (owner demo_reader) (repo demo_reader) (sha i_dat) =
     Inr \<lparr>sha = ''b8'', encoding = ''base64'', content = ''aGVs!bG8=''\<rparr> \<and>
   b64decode demo_env ''aGVs!bG8='' = Inr ''hello'' \<and>
   generate_documents demo_env demo_reader [(i_dat, ''i.dat'')] [] =
     (Inr [\<lparr>doc_text = ''hello'', doc_id = None,
            extra_info = [(''full_path'', ''i.dat''), (''file_name'', ''i.dat''),
                          (''file_extension'', ''.dat'')]\<rparr>],
      [Get_blob ''jerryjliu'' ''gpt_index'' ''b8''])"
proof -
  have h: "document_for_blob demo_env demo_reader (h_dat, ''h.dat'') =
      Inl (DecodeError ''string argument should contain only ASCII characters'')"
    by (simp add: demo_defs)
  have i: "document_for_blob demo_env demo_reader (i_dat, ''i.dat'') =
      Inr (Some \<lparr>doc_text = ''hello'', doc_id = None,
            extra_info = [(''full_path'', ''i.dat''), (''file_name'', ''i.dat''),
                          (''file_extension'', ''.dat'')]\<rparr>)"
    by (simp add: demo_defs)
  have g: "get_blob (client demo_reader) (owner demo_reader) (repo demo_reader) (sha h_dat) =
      Inr \<lparr>sha = ''b7'', encoding = ''base64'', content = [CHR 0xE9]\<rparr>"
    "b64decode demo_env [CHR 0xE9] =
      Inl (OtherB64Exception ''string argument should contain only ASCII characters'')"
    "get_blob (client demo_reader) (owner demo_reader) (repo demo_reader) (sha i_dat) =
      Inr \<lparr>sha = ''b8'', encoding = ''base64'', content = ''aGVs!bG8=''\<rparr>"
    "b64decode demo_env ''aGVs!bG8='' = Inr ''hello''"
    by (simp_all add: demo_defs)
  show ?thesis
    using g h i
    by (simp add: generate_documents_def loop_Cons emitted_def demo_reader_def
        h_dat_def i_dat_def del: document_for_blob.simps)
qed

section \<open>A parser that raises\<close>

text \<open>
  C1, as the reader behaves. When the parser registered for the extension of a fetched
  and decoded blob raises in \<^verbatim>\<open>parse_file\<close>, \<^verbatim>\<open>_parse_supported_file\<close> returns no document,
  and the loop then decodes the bytes as UTF-8: it appends the plain-text document when
  they decode and nothing when they do not, and in both cases goes on with the next
  pair.
\<close>

theorem failed_parser_falls_back:
  assumes "get_blob (client r) (owner r) (repo r) (sha blob_object) = Inr blob_data"
    and "encoding blob_data = ''base64''"
    and "b64decode env (content blob_data) = Inr decoded_bytes"
    and "use_parser r"
    and "DEFAULT_FILE_EXTRACTOR env (get_file_extension env full_path) = Some parser"
    and "init_parser parser = None"
    and "parse_file parser decoded_bytes = Inl e"
  shows "parse_supported_file env r full_path decoded_bytes (sha blob_data) full_path = Inr None \<and>
    emitted env r (blob_object, full_path) =
      (case utf8_decode env decoded_bytes of
         None \<Rightarrow> []
       | Some decoded_content_as_str \<Rightarrow>
           [\<lparr>doc_text = decoded_content_as_str, doc_id = None,
             extra_info = [(''full_path'', full_path),
                           (''file_name'', os_path_basename full_path),
                           (''file_extension'', snd (os_path_splitext full_path))]\<rparr>]) \<and>
    generate_documents_loop env r ((blob_object, full_path) # rest) documents log =
      generate_documents_loop env r rest (documents @ emitted env r (blob_object, full_path))
        (log @ [Get_blob (owner r) (repo r) (sha blob_object)])"
proof -
  have p: "parse_supported_file env r full_path decoded_bytes (sha blob_data) full_path = Inr None"
    using assms by (simp add: parse_supported_file_def)
  have d: "document_for_blob env r (blob_object, full_path) =
      (case utf8_decode env decoded_bytes of
         None \<Rightarrow> Inr None
       | Some decoded_content_as_str \<Rightarrow>
           Inr (Some \<lparr>doc_text = decoded_content_as_str, doc_id = None,
             extra_info = [(''full_path'', full_path),
                           (''file_name'', os_path_basename full_path),
                           (''file_extension'', snd (os_path_splitext full_path))]\<rparr>))"
    using assms p by simp
  have "generate_documents_loop env r ((blob_object, full_path) # rest) documents log =
      generate_documents_loop env r rest (documents @ emitted env r (blob_object, full_path))
        (log @ [Get_blob (owner r) (repo r) (sha blob_object)])"
    using d by (simp add: loop_Cons split: option.splits del: document_for_blob.simps)
  moreover have "emitted env r (blob_object, full_path) =
      (case utf8_decode env decoded_bytes of
         None \<Rightarrow> []
       | Some decoded_content_as_str \<Rightarrow>
           [\<lparr>doc_text = decoded_content_as_str, doc_id = None,
             extra_info = [(''full_path'', full_path),
                           (''file_name'', os_path_basename full_path),
                           (''file_extension'', snd (os_path_splitext full_path))]\<rparr>])"
    using d by (simp add: emitted_def split: option.splits del: document_for_blob.simps)
  ultimately show ?thesis using p by simp
qed

lemma demo_failing:
  "get_blob (client demo_reader) (owner demo_reader) (repo demo_reader) (sha a_txt) =
     Inr \<lparr>sha = ''b1'', encoding = ''base64'', content = ''aGVsbG8=''\<rparr>"
  "encoding \<lparr>sha = ''b1'', encoding = ''base64'', content = ''aGVsbG8=''\<rparr> = ''base64''"
  "b64decode demo_env (content \<lparr>sha = ''b1'', encoding = ''base64'', content = ''aGVsbG8=''\<rparr>) =
     Inr ''hello''"
  "use_parser demo_reader"
  "DEFAULT_FILE_EXTRACTOR demo_env (get_file_extension demo_env ''a.txt'') = Some failing_parser"
  "init_parser failing_parser = None"
  "parse_file failing_parser ''hello'' = Inl ''cannot parse''"
  by (simp_all add: demo_defs)

theorem failed_parser_falls_back_witness:
  "use_parser demo_reader \<and>
   DEFAULT_FILE_EXTRACTOR demo_env (get_file_extension demo_env ''a.txt'') = Some failing_parser \<and>
   parse_file failing_parser ''hello'' = Inl ''cannot parse'' \<and>
   parse_supported_file demo_env demo_reader ''a.txt'' ''hello'' ''b1'' ''a.txt'' = Inr None \<and>
   emitted demo_env demo_reader (a_txt, ''a.txt'') = [hello_document] \<and>
   generate_documents_loop demo_env demo_reader [(a_txt, ''a.txt'')] [] [] =
     (Inr [hello_document], [Get_blob ''jerryjliu'' ''gpt_index'' ''b1''])"
proof -
  have p: "os_path_basename ''a.txt'' = ''a.txt''" "snd (os_path_splitext ''a.txt'') = ''.txt''"
    "utf8_decode demo_env ''hello'' = Some ''hello''"
    by (simp_all add: demo_defs)
  show ?thesis
    using failed_parser_falls_back [OF demo_failing, of "[]" "[]" "[]"] demo_failing
    by (simp add: p hello_document_def demo_reader_def a_txt_def del: document_for_blob.simps)
qed

text \<open>
  A parser that raises is therefore not the end for the file: in the example, the
  parser registered for \<^verbatim>\<open>.txt\<close> raises on \<^verbatim>\<open>a.txt\<close>, and the crawl returns the document of
  the plain-text decoding of its bytes.
\<close>

theorem failed_parser_counterexample:
  "use_parser demo_reader \<and>
   get_blob (client demo_reader) (owner demo_reader) (repo demo_reader) (sha a_txt) =
     Inr \<lparr>sha = ''b1'', encoding = ''base64'', content = ''aGVsbG8=''\<rparr> \<and>
   b64decode demo_env ''aGVsbG8='' = Inr ''hello'' \<and>
   DEFAULT_FILE_EXTRACTOR demo_env (get_file_extension demo_env ''a.txt'') = Some failing_parser \<and>
   init_parser failing_parser = None \<and>
   parse_file failing_parser ''hello'' = Inl ''cannot parse'' \<and>
   generate_documents demo_env demo_reader [(a_txt, ''a.txt'')] [] =
     (Inr [\<lparr>doc_text = ''hello'', doc_id = None,
            extra_info = [(''full_path'', ''a.txt''), (''file_name'', ''a.txt''),
                          (''file_extension'', ''.txt'')]\<rparr>],
      [Get_blob ''jerryjliu'' ''gpt_index'' ''b1''])"
  using demo_failing demo_a_txt
  by (simp add: generate_documents_def loop_Cons emitted_def hello_document_def
      demo_reader_def a_txt_def del: document_for_blob.simps)

section \<open>The encoding of a blob\<close>

lemma document_for_blob_assertion:
  assumes "document_for_blob env r (blob_object, full_path) = Inl (AssertionError m)"
  shows "\<exists>blob_data.
    get_blob (client r) (owner r) (repo r) (sha blob_object) = Inr blob_data \<and>
    encoding blob_data \<noteq> ''base64''"
proof (cases "get_blob (client r) (owner r) (repo r) (sha blob_object)")
  case (Inl e)
  with assms show ?thesis by simp
next
  case (Inr blob_data)
  show ?thesis
  proof (cases "encoding blob_data = ''base64''")
    case True
    with assms Inr have False
      by (auto simp: parse_supported_file_def Let_def
          split: sum.splits b64_exception.splits option.splits if_splits)
    then show ?thesis ..
  next
    case False
    with Inr show ?thesis by simp
  qed
qed

lemma loop_error_source:
  "fst (generate_documents_loop env r bps documents log) = Inl e \<Longrightarrow>
   \<exists>bp\<in>set bps. document_for_blob env r bp = Inl e"
proof (induction bps arbitrary: documents log)
  case Nil
  then show ?case by simp
next
  case (Cons bp bps)
  show ?case
  proof (cases "document_for_blob env r bp")
    case (Inl e')
    with Cons.prems show ?thesis by (simp add: loop_Cons)
  next
    case (Inr d)
    with Cons.prems have
      "fst (generate_documents_loop env r bps (documents @ emitted env r bp)
         (log @ [Get_blob (owner r) (repo r) (sha (fst bp))])) = Inl e"
      by (simp add: loop_Cons)
    from Cons.IH [OF this] show ?thesis by auto
  qed
qed

text \<open>
  C8. When every blob the client returns for the pairs of the crawl has the encoding
  \<^verbatim>\<open>base64\<close>, the assertion never fails. When the blob of a pair has another encoding,
  the loop stops at that pair with the \<^verbatim>\<open>AssertionError\<close>: nothing is fetched after it, and
  a crawl that reached the pair ends with that error instead of skipping the file.
\<close>

theorem other_encoding_is_fatal:
  "((\<forall>bp\<in>set blobs_and_paths. \<forall>blob_data.
       get_blob (client r) (owner r) (repo r) (sha (fst bp)) = Inr blob_data \<longrightarrow>
       encoding blob_data = ''base64'') \<longrightarrow>
    (\<forall>m. fst (generate_documents env r blobs_and_paths log) \<noteq> Inl (AssertionError m))) \<and>
   (get_blob (client r) (owner r) (repo r) (sha blob_object) = Inr blob_data \<and>
    encoding blob_data \<noteq> ''base64'' \<longrightarrow>
      generate_documents_loop env r ((blob_object, full_path) # rest) documents log =
        (Inl (AssertionError (''blob encoding '' @ encoding blob_data @ '' not supported'')),
         log @ [Get_blob (owner r) (repo r) (sha blob_object)]) \<and>
      (\<forall>ds. fst (generate_documents env r before log) = Inr ds \<longrightarrow>
         fst (generate_documents env r (before @ (blob_object, full_path) # rest) log) =
           Inl (AssertionError (''blob encoding '' @ encoding blob_data @ '' not supported''))))"
proof (intro conjI impI allI)
  fix m
  assume b: "\<forall>bp\<in>set blobs_and_paths. \<forall>blob_data.
       get_blob (client r) (owner r) (repo r) (sha (fst bp)) = Inr blob_data \<longrightarrow>
       encoding blob_data = ''base64''"
  show "fst (generate_documents env r blobs_and_paths log) \<noteq> Inl (AssertionError m)"
  proof
    assume "fst (generate_documents env r blobs_and_paths log) = Inl (AssertionError m)"
    then obtain bp where bp: "bp \<in> set blobs_and_paths"
      and d: "document_for_blob env r bp = Inl (AssertionError m)"
      using loop_error_source [of env r blobs_and_paths "[]" log "AssertionError m"]
      by (auto simp: generate_documents_def)
    from d obtain blob_data where
      "get_blob (client r) (owner r) (repo r) (sha (fst bp)) = Inr blob_data"
      "encoding blob_data \<noteq> ''base64''"
      using document_for_blob_assertion [of env r "fst bp" "snd bp" m] by auto
    with b bp show False by blast
  qed
next
  assume a: "get_blob (client r) (owner r) (repo r) (sha blob_object) = Inr blob_data \<and>
    encoding blob_data \<noteq> ''base64''"
  then have d: "document_for_blob env r (blob_object, full_path) =
      Inl (AssertionError (''blob encoding '' @ encoding blob_data @ '' not supported''))"
    by simp
  show "generate_documents_loop env r ((blob_object, full_path) # rest) documents log =
        (Inl (AssertionError (''blob encoding '' @ encoding blob_data @ '' not supported'')),
         log @ [Get_blob (owner r) (repo r) (sha blob_object)])"
    using loop_raise [OF d, of rest documents log] by simp
  fix ds
  assume "fst (generate_documents env r before log) = Inr ds"
  with d show "fst (generate_documents env r (before @ (blob_object, full_path) # rest) log) =
      Inl (AssertionError (''blob encoding '' @ encoding blob_data @ '' not supported''))"
    by (rule crawl_raise)
qed

theorem other_encoding_is_fatal_witness:
  "map (\<lambda>bp. map_sum id encoding
          (get_blob (client demo_reader) (owner demo_reader) (repo demo_reader) (sha (fst bp))))
     demo_walk = [Inr ''base64'', Inr ''base64'', Inr ''base64''] \<and>
   fst (generate_documents demo_env demo_reader demo_walk []) \<noteq>
     Inl (AssertionError ''blob encoding utf-8 not supported'') \<and>
   get_blob (client demo_reader) (owner demo_reader) (repo demo_reader) (sha f_raw) =
     Inr \<lparr>sha = ''b5'', encoding = ''utf-8'', content = ''hello''\<rparr> \<and>
   generate_documents_loop demo_env demo_reader [(f_raw, ''f.raw''), (d_md, ''d.md'')] [] [] =
     (Inl (AssertionError ''blob encoding utf-8 not supported''),
      [Get_blob ''jerryjliu'' ''gpt_index'' ''b5'']) \<and>
   fst (generate_documents demo_env demo_reader
          ([(a_txt, ''a.txt'')] @ (f_raw, ''f.raw'') # [(d_md, ''d.md'')]) []) =
     Inl (AssertionError ''blob encoding utf-8 not supported'')"
proof -
  have w: "\<forall>bp\<in>set demo_walk. \<forall>blob_data.
       get_blob (client demo_reader) (owner demo_reader) (repo demo_reader) (sha (fst bp)) =
         Inr blob_data \<longrightarrow>
       encoding blob_data = ''base64''"
    by (auto simp: demo_walk_def demo_defs)
  have m: "map (\<lambda>bp. map_sum id encoding
          (get_blob (client demo_reader) (owner demo_reader) (repo demo_reader) (sha (fst bp))))
     demo_walk = [Inr ''base64'', Inr ''base64'', Inr ''base64'']"
    by (simp add: demo_walk_def demo_defs)
  have f: "get_blob (client demo_reader) (owner demo_reader) (repo demo_reader) (sha f_raw) =
     Inr \<lparr>sha = ''b5'', encoding = ''utf-8'', content = ''hello''\<rparr>"
    "encoding \<lparr>sha = ''b5'', encoding = ''utf-8'', content = ''hello''\<rparr> \<noteq> ''base64''"
    by (simp_all add: demo_defs)
  have a: "fst (generate_documents demo_env demo_reader [(a_txt, ''a.txt'')] []) =
      Inr [hello_document]"
    by (simp add: generate_documents_def loop_Cons emitted_def demo_a_txt
        del: document_for_blob.simps)
  note t1 = other_encoding_is_fatal [of demo_walk demo_reader demo_env "[]" f_raw
      "\<lparr>sha = ''b5'', encoding = ''utf-8'', content = ''hello''\<rparr>" "''f.raw''"
      "[(d_md, ''d.md'')]" "[]" "[(a_txt, ''a.txt'')]"]
  show ?thesis
    using t1 w m f a
    by (simp add: demo_reader_def f_raw_def del: document_for_blob.simps)
qed

section \<open>The arguments of \<open>load_data\<close>\<close>

lemma recurse_errors:
  "recurse_tree fuel r tree_sha current_path current_depth log = Some (Inl e, log') \<Longrightarrow>
     \<exists>x. e = ClientError x"
  "recurse_entries fuel r current_path current_depth entries found log = Some (Inl e, log') \<Longrightarrow>
     \<exists>x. e = ClientError x"
proof (induction fuel r tree_sha current_path current_depth log
    and fuel r current_path current_depth entries found log
    arbitrary: log' and log' rule: recurse_tree_recurse_entries.induct)
  case (1 r tree_sha current_path current_depth log)
  then show ?case by simp
next
  case (2 fuel r tree_sha current_path current_depth log)
  then show ?case by (auto simp: Let_def split: sum.splits)
next
  case (3 fuel r current_path current_depth blobs_and_full_paths log)
  then show ?case by simp
next
  case (4 fuel r current_path current_depth tree rest blobs_and_full_paths log)
  from "4.prems" "4.IH" show ?case
    by (auto simp: Let_def split: option.splits sum.splits prod.splits if_splits)
qed

lemma document_for_blob_no_ValueError:
  "document_for_blob env r bp \<noteq> Inl (ValueError m)"
  by (cases bp)
    (auto simp: parse_supported_file_def Let_def
      split: sum.splits b64_exception.splits option.splits if_splits)

lemma generate_documents_no_ValueError:
  "fst (generate_documents env r bps log) \<noteq> Inl (ValueError m)"
  using loop_error_source [of env r bps "[]" log "ValueError m"]
    document_for_blob_no_ValueError [of env r _ m]
  by (auto simp: generate_documents_def)

lemma crawl_no_ValueError:
  "(case recurse_tree fuel r root [] 0 log of
      None \<Rightarrow> None
    | Some (Inl e, log'') \<Rightarrow> Some (Inl e, log'')
    | Some (Inr blobs_and_paths, log'') \<Rightarrow>
        Some (generate_documents env r blobs_and_paths log'')) \<noteq>
   Some (Inl (ValueError m), log')"
proof (cases "recurse_tree fuel r root [] 0 log")
  case None
  then show ?thesis by simp
next
  case (Some res)
  obtain out l where res: "res = (out, l)" by (cases res)
  show ?thesis
  proof (cases out)
    case (Inl e)
    with Some res recurse_errors(1) [of fuel r root "[]" 0 log e l] show ?thesis by auto
  next
    case (Inr bps)
    have "generate_documents env r bps l \<noteq> (Inl (ValueError m), log')"
      using generate_documents_no_ValueError [of env r bps l m] by (metis fst_conv)
    with Some res Inr show ?thesis by simp
  qed
qed

lemma loaders_no_ValueError:
  "load_data_from_commit fuel env r c log \<noteq> Some (Inl (ValueError m), log')"
  "load_data_from_branch fuel env r b log \<noteq> Some (Inl (ValueError m), log')"
  using crawl_no_ValueError [where fuel = fuel and r = r and env = env and m = m and log' = log']
  by (simp_all add: load_data_from_commit_def load_data_from_branch_def Let_def
      split: sum.splits)

text \<open>
  C6. \<^verbatim>\<open>load_data\<close> returns with a \<^verbatim>\<open>ValueError\<close> exactly when both or neither of
  \<open>commit_sha\<close> and \<open>branch\<close> are given; it then returns the log as it was, so no call was
  made to the client. With exactly one of them the check passes and the result is that
  of loading from the commit, or from the branch.
\<close>

theorem load_data_argument_check:
  "((\<exists>m log'. load_data fuel env r commit_sha branch log = Some (Inl (ValueError m), log')) \<longleftrightarrow>
      (commit_sha \<noteq> None \<and> branch \<noteq> None) \<or> (commit_sha = None \<and> branch = None)) \<and>
   (commit_sha \<noteq> None \<and> branch \<noteq> None \<longrightarrow>
      load_data fuel env r commit_sha branch log =
        Some (Inl (ValueError ''You can only specify one of commit or branch.''), log)) \<and>
   (commit_sha = None \<and> branch = None \<longrightarrow>
      load_data fuel env r commit_sha branch log =
        Some (Inl (ValueError ''You must specify one of commit or branch.''), log)) \<and>
   (\<forall>c. commit_sha = Some c \<and> branch = None \<longrightarrow>
      load_data fuel env r commit_sha branch log = load_data_from_commit fuel env r c log) \<and>
   (\<forall>b. commit_sha = None \<and> branch = Some b \<longrightarrow>
      load_data fuel env r commit_sha branch log = load_data_from_branch fuel env r b log)"
proof (cases commit_sha)
  case None
  show ?thesis
  proof (cases branch)
    case None
    with \<open>commit_sha = None\<close> show ?thesis by (simp add: load_data_def)
  next
    case (Some b)
    with None loaders_no_ValueError(2) [of fuel env r b log] show ?thesis
      by (simp add: load_data_def)
  qed
next
  case (Some c)
  show ?thesis
  proof (cases branch)
    case None
    with Some loaders_no_ValueError(1) [of fuel env r c log] show ?thesis
      by (simp add: load_data_def)
  next
    case (Some b)
    with \<open>commit_sha = Some c\<close> show ?thesis by (simp add: load_data_def)
  qed
qed

theorem load_data_argument_check_witness:
  "load_data 2 demo_env demo_reader (Some ''c0'') (Some ''main'') [] =
     Some (Inl (ValueError ''You can only specify one of commit or branch.''), []) \<and>
   load_data 2 demo_env demo_reader None None [] =
     Some (Inl (ValueError ''You must specify one of commit or branch.''), []) \<and>
   load_data 2 demo_env demo_reader (Some ''c0'') None [] =
     load_data_from_commit 2 demo_env demo_reader ''c0'' [] \<and>
   load_data 2 demo_env demo_reader None (Some ''main'') [] =
     load_data_from_branch 2 demo_env demo_reader ''main'' [] \<and>
   map_option fst (load_data 2 demo_env demo_reader (Some ''c0'') None []) =
     Some (Inr [hello_document, parsed_document])"
proof -
  have "map_option fst (load_data 2 demo_env demo_reader (Some ''c0'') None []) =
      Some (Inr [hello_document, parsed_document])"
    using load_data_served [OF demo_serves demo_depth demo_commit, of demo_env "[]"]
    by (simp add: demo_listing demo_documents)
  then show ?thesis
    using load_data_argument_check [of 2 demo_env demo_reader "Some ''c0''" "Some ''main''" "[]"]
      load_data_argument_check [of 2 demo_env demo_reader None None "[]"]
      load_data_argument_check [of 2 demo_env demo_reader "Some ''c0''" None "[]"]
      load_data_argument_check [of 2 demo_env demo_reader None "Some ''main''" "[]"]
    by simp
qed

end
